theory Spec2Isabelle
  imports Main "HOL-Library.Option_ord" "HOL-Library.Sublist"
begin

section \<open>Data model\<close>

text \<open>
  The service keeps one table, \<open>simple_data\<close>, in a PostgreSQL database and reaches it
  through an object-relational mapper. Nothing of the mapper or of the database is part
  of \<open>main.py\<close>; the model below gives them the behaviour the handlers rely on, and keeps
  the handlers themselves line by line.

  Timestamps are the store's clock readings, as integers (microseconds). Python strings
  are \<open>string\<close>s holding their UTF-8 bytes. Python integers are unbounded, so \<open>int\<close>.
\<close>

type_synonym timestamp = int

text \<open>
  The mapped class \<open>SimpleData\<close>. An attribute that is unset in Python, or a column that
  is NULL in a row, is \<open>None\<close>: \<open>Column(String)\<close> and the timestamp column are nullable
  as declared, and \<open>id\<close> is unset until the row has been inserted.
\<close>

record SimpleData =
  id' :: "int option"
  content :: "string option"
  created_at :: "timestamp option"

text \<open>
  The request body \<open>DataItemCreate\<close> and the response body \<open>DataItem\<close>. Their fields
  have the names of the columns in the source; here they carry a prefix to keep the three
  records apart.
\<close>

datatype DataItemCreate = DataItemCreate (item_content: string)

record DataItem =
  data_id :: int
  data_content :: string
  data_created_at :: timestamp

text \<open>
  \<open>DataItem\<close> is built from a \<open>SimpleData\<close> object by attribute (\<open>from_attributes\<close>);
  each of its three fields is required, so an attribute that is \<open>None\<close> fails validation.
\<close>

definition validate_DataItem :: "SimpleData \<Rightarrow> DataItem option" where
  "validate_DataItem e =
     (case (id' e, content e, created_at e) of
        (Some i, Some c, Some t) \<Rightarrow>
          Some \<lparr>data_id = i, data_content = c, data_created_at = t\<rparr>
      | _ \<Rightarrow> None)"

definition validate_DataItems :: "SimpleData list \<Rightarrow> DataItem list option" where
  "validate_DataItems es = those (map validate_DataItem es)"

section \<open>The store\<close>

text \<open>
  The database: the rows of \<open>simple_data\<close> in the order they were inserted, and the last
  value handed out by the sequence behind the integer primary key. \<open>create_all\<close> on a new
  database leaves the table empty and the sequence unused.
\<close>

record Database =
  simple_data :: "SimpleData list"
  simple_data_id_seq :: int

definition create_all :: Database where
  "create_all = \<lparr>simple_data = [], simple_data_id_seq = 0\<rparr>"

datatype db_exception = DBAPIError string | InvalidRequestError string

fun str_exception :: "db_exception \<Rightarrow> string" where
  "str_exception (DBAPIError m) = m"
| "str_exception (InvalidRequestError m) = m"

text \<open>
  A commit can be refused (a lost connection, a violated constraint, ...) at two points:
  before the pending statements have reached the store, or after they have run inside the
  transaction, which the store then aborts. The difference shows in the sequence: a key
  drawn by an INSERT that ran is used up even though the row is rolled back.
\<close>

datatype fault = Before_flush db_exception | After_flush db_exception

text \<open>
  What the environment decides for one request: the reading of the store's clock when the
  request arrives, the reading that \<open>func.now()\<close> returns inside the request's
  transaction, and whether and where the commit is refused. No handler reads
  \<open>called_at\<close>; it is there to speak about the time of the call. The commit is the only
  place where the environment can make the store fail; queries fail only where the
  store's own rules say so.
\<close>

fun fault_exception :: "fault \<Rightarrow> db_exception" where
  "fault_exception (Before_flush e) = e"
| "fault_exception (After_flush e) = e"

record Env =
  called_at :: timestamp
  now :: timestamp
  commit_fault :: "fault option"

text \<open>
  INSERT of one object. A primary key that is unset is taken from the sequence; a
  \<open>created_at\<close> that is unset gets the server default \<open>now()\<close>. The object comes back as
  the row that was written.
\<close>

definition insert_row :: "timestamp \<Rightarrow> SimpleData \<Rightarrow> Database \<Rightarrow> Database \<times> SimpleData" where
  "insert_row t e d =
     (let seq = (case id' e of None \<Rightarrow> simple_data_id_seq d + 1 | Some _ \<Rightarrow> simple_data_id_seq d);
          row = e\<lparr>id' := (case id' e of None \<Rightarrow> Some seq | Some i \<Rightarrow> Some i),
                  created_at := (case created_at e of None \<Rightarrow> Some t | Some c \<Rightarrow> Some c)\<rparr>
      in (d\<lparr>simple_data := simple_data d @ [row], simple_data_id_seq := seq\<rparr>, row))"

fun insert_rows :: "timestamp \<Rightarrow> SimpleData list \<Rightarrow> Database \<Rightarrow> Database \<times> SimpleData list" where
  "insert_rows t [] d = (d, [])"
| "insert_rows t (e # es) d =
     (let (d1, r) = insert_row t e d;
          (d2, rs) = insert_rows t es d1
      in (d2, r # rs))"

text \<open>DELETE of one object, by its primary key.\<close>

definition delete_row :: "SimpleData \<Rightarrow> Database \<Rightarrow> Database" where
  "delete_row e d = d\<lparr>simple_data := filter (\<lambda>r. id' r \<noteq> id' e) (simple_data d)\<rparr>"

text \<open>
  \<open>ORDER BY created_at DESC\<close>: newest first, NULLs before everything (the default of
  PostgreSQL for a descending sort). The store promises nothing about rows with equal
  \<open>created_at\<close>: their order depends on how it scans and sorts, and may differ from one
  query to the next. That choice is the argument \<open>tie\<close>, a rank the store gives the rows
  for this query: among equal timestamps the lower rank comes first.
\<close>

type_synonym tie_order = "SimpleData \<Rightarrow> nat"

definition desc :: "timestamp option \<Rightarrow> int option" where
  "desc c = map_option uminus c"

definition order_by_created_at_desc :: "tie_order \<Rightarrow> SimpleData list \<Rightarrow> SimpleData list" where
  "order_by_created_at_desc tie rows =
     sort_key (\<lambda>r. desc (created_at r)) (sort_key tie rows)"

section \<open>The session\<close>

text \<open>
  A session (\<open>autocommit=False, autoflush=False\<close>) holds the objects added and the
  objects marked for deletion until \<open>commit\<close> writes them; \<open>bind\<close> is the database as
  committed. \<open>get_db\<close> opens one session per request and closes it afterwards.
\<close>

record Session =
  bind :: Database
  new :: "SimpleData list"
  deleted :: "SimpleData list"

definition SessionLocal :: "Database \<Rightarrow> Session" where
  "SessionLocal d = \<lparr>bind = d, new = [], deleted = []\<rparr>"

definition add :: "Session \<Rightarrow> SimpleData \<Rightarrow> Session" where
  "add db e = db\<lparr>new := new db @ [e]\<rparr>"

definition delete :: "Session \<Rightarrow> SimpleData \<Rightarrow> Session" where
  "delete db e = db\<lparr>deleted := deleted db @ [e]\<rparr>"

text \<open>
  \<open>commit\<close> flushes the pending inserts, then the pending deletes, and makes them
  permanent; it returns the session and the added objects as inserted. When the
  environment refuses the commit the exception is raised and the session is left with its
  pending objects for \<open>rollback\<close> to discard. No row is written then; but if the statements
  had run before the refusal, the sequence stays where the inserts left it.
\<close>

definition commit ::
  "Env \<Rightarrow> Session \<Rightarrow> db_exception \<times> Session + Session \<times> SimpleData list" where
  "commit env db =
     (let (d1, flushed) = insert_rows (now env) (new db) (bind db);
          d2 = fold delete_row (deleted db) d1
      in case commit_fault env of
           None \<Rightarrow> Inr (\<lparr>bind = d2, new = [], deleted = []\<rparr>, flushed)
         | Some (Before_flush e) \<Rightarrow> Inl (e, db)
         | Some (After_flush e) \<Rightarrow>
             Inl (e, db\<lparr>bind := (bind db)\<lparr>simple_data_id_seq := simple_data_id_seq d2\<rparr>\<rparr>))"

definition rollback :: "Session \<Rightarrow> Session" where
  "rollback db = db\<lparr>new := [], deleted := []\<rparr>"

definition close :: "Session \<Rightarrow> Database" where
  "close db = bind db"

text \<open>\<open>refresh\<close> reloads an object from its row, found by primary key.\<close>

definition refresh :: "Session \<Rightarrow> SimpleData \<Rightarrow> db_exception + SimpleData" where
  "refresh db e =
     (case find (\<lambda>r. id' r \<noteq> None \<and> id' r = id' e) (simple_data (bind db)) of
        None \<Rightarrow> Inl (InvalidRequestError ''Could not refresh instance'')
      | Some r \<Rightarrow> Inr r)"

text \<open>
  \<open>query(SimpleData).order_by(SimpleData.created_at.desc()).offset(skip).limit(limit).all()\<close>.
  The two numbers reach the store as they are. OFFSET and LIMIT are 64-bit integers in
  PostgreSQL: a number outside that range is refused, and so is a negative one, the
  offset being looked at first.
\<close>

definition bigint :: "int \<Rightarrow> bool" where
  "bigint v \<longleftrightarrow> - (2 ^ 63) \<le> v \<and> v < 2 ^ 63"

definition query_page ::
  "int \<Rightarrow> int \<Rightarrow> tie_order \<Rightarrow> Session \<Rightarrow> db_exception + SimpleData list" where
  "query_page skip limit tie db =
     (if \<not> bigint skip \<or> \<not> bigint limit then Inl (DBAPIError ''bigint out of range'')
      else if skip < 0 then Inl (DBAPIError ''OFFSET must not be negative'')
      else if limit < 0 then Inl (DBAPIError ''LIMIT must not be negative'')
      else Inr (take (nat limit) (drop (nat skip)
                  (order_by_created_at_desc tie (simple_data (bind db))))))"

text \<open>\<open>query(SimpleData).filter(SimpleData.id == item_id).first()\<close>.\<close>

definition query_first_by_id :: "int \<Rightarrow> Session \<Rightarrow> SimpleData option" where
  "query_first_by_id item_id db = find (\<lambda>r. id' r = Some item_id) (simple_data (bind db))"

section \<open>Text\<close>

definition utf8 :: "nat list \<Rightarrow> string" where
  "utf8 bs = map char_of bs"

text \<open>Python's \<open>str\<close> of an integer, as the f-string of the delete message uses it.\<close>

fun digits :: "nat \<Rightarrow> string" where
  "digits n = (if n < 10 then [char_of (48 + n)] else digits (n div 10) @ [char_of (48 + n mod 10)])"

declare digits.simps [simp del]

definition str_int :: "int \<Rightarrow> string" where
  "str_int i = (if i < 0 then CHR ''-'' # digits (nat (- i)) else digits (nat i))"

text \<open>
  Reading a numeral back, as Python's \<open>int\<close> does on the strings \<open>str\<close> produces: the
  value of a string of decimal digits, with an optional minus sign in front.
\<close>

definition decimal :: "string \<Rightarrow> nat" where
  "decimal s = foldl (\<lambda>a c. 10 * a + (of_char c - 48)) 0 s"

definition int_of_str :: "string \<Rightarrow> int" where
  "int_of_str s =
     (case s of
        [] \<Rightarrow> 0
      | c # cs \<Rightarrow> if c = CHR ''-'' then - int (decimal cs) else int (decimal s))"

definition detail_save_failed :: string where
  "detail_save_failed = utf8
     [0xeb, 0x8d, 0xb0, 0xec, 0x9d, 0xb4, 0xed, 0x84, 0xb0, 0xeb, 0xb2, 0xa0, 0xec, 0x9d, 0xb4,
      0xec, 0x8a, 0xa4, 0x20, 0xec, 0xa0, 0x80, 0xec, 0x9e, 0xa5, 0xec, 0x97, 0x90, 0x20, 0xec,
      0x8b, 0xa4, 0xed, 0x8c, 0xa8, 0xed, 0x96, 0x88, 0xec, 0x8a, 0xb5, 0xeb, 0x8b, 0x88, 0xeb,
      0x8b, 0xa4, 0x2e]"

definition detail_delete_failed :: string where
  "detail_delete_failed = utf8
     [0xeb, 0x8d, 0xb0, 0xec, 0x9d, 0xb4, 0xed, 0x84, 0xb0, 0xeb, 0xb2, 0xa0, 0xec, 0x9d, 0xb4,
      0xec, 0x8a, 0xa4, 0x20, 0xec, 0x82, 0xad, 0xec, 0xa0, 0x9c, 0xec, 0x97, 0x90, 0x20, 0xec,
      0x8b, 0xa4, 0xed, 0x8c, 0xa8, 0xed, 0x96, 0x88, 0xec, 0x8a, 0xb5, 0xeb, 0x8b, 0x88, 0xeb,
      0x8b, 0xa4, 0x2e]"

definition detail_not_found :: string where
  "detail_not_found = utf8
     [0xed, 0x95, 0xb4, 0xeb, 0x8b, 0xb9, 0x20, 0x49, 0x44, 0xec, 0x9d, 0x98, 0x20, 0xeb, 0x8d,
      0xb0, 0xec, 0x9d, 0xb4, 0xed, 0x84, 0xb0, 0xeb, 0xa5, 0xbc, 0x20, 0xec, 0xb0, 0xbe, 0xec,
      0x9d, 0x84, 0x20, 0xec, 0x88, 0x98, 0x20, 0xec, 0x97, 0x86, 0xec, 0x8a, 0xb5, 0xeb, 0x8b,
      0x88, 0xeb, 0x8b, 0xa4, 0x2e]"

definition log_save_error :: "db_exception \<Rightarrow> string" where
  "log_save_error e = utf8
     [0x44, 0x42, 0x20, 0xec, 0xa0, 0x80, 0xec, 0x9e, 0xa5, 0x20, 0xec, 0x98, 0xa4, 0xeb, 0xa5,
      0x98, 0x3a, 0x20] @ str_exception e"

definition log_delete_error :: "db_exception \<Rightarrow> string" where
  "log_delete_error e = utf8
     [0x44, 0x42, 0x20, 0xec, 0x82, 0xad, 0xec, 0xa0, 0x9c, 0x20, 0xec, 0x98, 0xa4, 0xeb, 0xa5,
      0x98, 0x3a, 0x20] @ str_exception e"

definition message_deleted :: "int \<Rightarrow> string" where
  "message_deleted item_id = utf8
     [0xeb, 0x8d, 0xb0, 0xec, 0x9d, 0xb4, 0xed, 0x84, 0xb0, 0x28, 0x49, 0x44, 0x3a, 0x20]
     @ str_int item_id @ utf8
     [0x29, 0xea, 0xb0, 0x80, 0x20, 0xec, 0x84, 0xb1, 0xea, 0xb3, 0xb5, 0xec, 0xa0, 0x81, 0xec,
      0x9c, 0xbc, 0xeb, 0xa1, 0x9c, 0x20, 0xec, 0x82, 0xad, 0xec, 0xa0, 0x9c, 0xeb, 0x90, 0x98,
      0xec, 0x97, 0x88, 0xec, 0x8a, 0xb5, 0xeb, 0x8b, 0x88, 0xeb, 0x8b, 0xa4, 0x2e]"

section \<open>The handlers\<close>

text \<open>
  A handler returns a value, raises \<open>HTTPException\<close> with a status and a detail, or lets
  an exception of the store escape. Beside the outcome it gives the session as it leaves
  it and the lines it printed. In \<open>create_data_entry\<close> the object \<open>db_entry\<close> is the one
  added last, so after the commit it is the last of the objects the commit wrote; any
  exception inside the \<open>try\<close> block, of \<open>commit\<close> or of \<open>refresh\<close>, takes the
  \<open>except\<close> branch.
\<close>

datatype 'a outcome = Return 'a | HTTPException int string | Unhandled db_exception

definition create_data_entry ::
  "DataItemCreate \<Rightarrow> Env \<Rightarrow> Session \<Rightarrow> SimpleData outcome \<times> Session \<times> string list" where
  "create_data_entry item env db =
     (let db_entry = \<lparr>id' = None, content = Some (item_content item), created_at = None\<rparr>;
          db1 = add db db_entry
      in case commit env db1 of
           Inl (e, db2) \<Rightarrow> (HTTPException 500 detail_save_failed, rollback db2, [log_save_error e])
         | Inr (db2, flushed) \<Rightarrow>
             (case (if flushed = [] then Inl (InvalidRequestError ''Instance is not persistent'')
                    else refresh db2 (last flushed)) of
                Inl e \<Rightarrow> (HTTPException 500 detail_save_failed, rollback db2, [log_save_error e])
              | Inr db_entry' \<Rightarrow> (Return db_entry', db2, [])))"

definition read_data_entries ::
  "int \<Rightarrow> int \<Rightarrow> tie_order \<Rightarrow> Session \<Rightarrow> SimpleData list outcome \<times> Session \<times> string list" where
  "read_data_entries skip limit tie db =
     (case query_page skip limit tie db of
        Inl e \<Rightarrow> (Unhandled e, db, [])
      | Inr entries \<Rightarrow> (Return entries, db, []))"

definition delete_data_entry ::
  "int \<Rightarrow> Env \<Rightarrow> Session \<Rightarrow> (string \<times> string) list outcome \<times> Session \<times> string list" where
  "delete_data_entry item_id env db =
     (case query_first_by_id item_id db of
        None \<Rightarrow> (HTTPException 404 detail_not_found, db, [])
      | Some db_entry \<Rightarrow>
          (let db1 = delete db db_entry
           in case commit env db1 of
                Inr (db2, _) \<Rightarrow> (Return [(''message'', message_deleted item_id)], db2, [])
              | Inl (e, db2) \<Rightarrow>
                  (HTTPException 500 detail_delete_failed, rollback db2, [log_delete_error e])))"

section \<open>The routes\<close>

text \<open>
  What the client sees: status 200 with the validated body, or an error status with its
  detail. An exception no handler catches, and a return value that fails the route's
  \<open>response_model\<close>, both end as the framework's plain 500.
\<close>

datatype 'a response = OK 'a | Error int string

fun status_code :: "'a response \<Rightarrow> int" where
  "status_code (OK _) = 200"
| "status_code (Error c _) = c"

definition internal_server_error :: "'a response" where
  "internal_server_error = Error 500 ''Internal Server Error''"

definition respond :: "('a \<Rightarrow> 'b option) \<Rightarrow> 'a outcome \<Rightarrow> 'b response" where
  "respond response_model out =
     (case out of
        Return v \<Rightarrow> (case response_model v of Some b \<Rightarrow> OK b | None \<Rightarrow> internal_server_error)
      | HTTPException c detail \<Rightarrow> Error c detail
      | Unhandled e \<Rightarrow> internal_server_error)"

text \<open>
  \<open>POST /api/data\<close>, \<open>GET /api/data?skip=&limit=\<close>, \<open>DELETE /api/data/{item_id}\<close>: each
  opens a session on the database, runs its handler and closes the session. A listing
  comes with the store's tie order for its query.
\<close>

definition post_api_data :: "DataItemCreate \<Rightarrow> Env \<Rightarrow> Database \<Rightarrow> DataItem response \<times> Database" where
  "post_api_data item env d =
     (let (out, db, printed) = create_data_entry item env (SessionLocal d)
      in (respond validate_DataItem out, close db))"

definition get_api_data ::
  "int option \<Rightarrow> int option \<Rightarrow> tie_order \<Rightarrow> Database \<Rightarrow> DataItem list response \<times> Database" where
  "get_api_data skip limit tie d =
     (let (out, db, printed) =
            read_data_entries (case skip of None \<Rightarrow> 0 | Some v \<Rightarrow> v)
              (case limit of None \<Rightarrow> 100 | Some v \<Rightarrow> v) tie (SessionLocal d)
      in (respond validate_DataItems out, close db))"

definition delete_api_data ::
  "int \<Rightarrow> Env \<Rightarrow> Database \<Rightarrow> (string \<times> string) list response \<times> Database" where
  "delete_api_data item_id env d =
     (let (out, db, printed) = delete_data_entry item_id env (SessionLocal d)
      in (respond Some out, close db))"

section \<open>Well-formed and reachable databases\<close>

text \<open>
  What the schema and the three routes maintain. Every row carries a primary key that the
  sequence handed out (positive, not above the sequence's last value, unique) and has its
  content and its timestamp set. In such a table the key taken from the sequence is new,
  so the primary-key constraint cannot reject an insert; whatever else may make the
  store refuse a commit is the environment's \<open>commit_fault\<close>. The sequence may run ahead
  of the keys in the table, as it does after a delete or an aborted insert.
\<close>

definition well_formed :: "Database \<Rightarrow> bool" where
  "well_formed d \<longleftrightarrow>
     0 \<le> simple_data_id_seq d \<and>
     list_all (\<lambda>r. case id' r of None \<Rightarrow> False | Some i \<Rightarrow> 0 < i \<and> i \<le> simple_data_id_seq d)
       (simple_data d) \<and>
     list_all (\<lambda>r. content r \<noteq> None \<and> created_at r \<noteq> None) (simple_data d) \<and>
     distinct (map id' (simple_data d))"

text \<open>The invariant of the data model: no stored record lacks its id or its content.\<close>

definition stored_non_null :: "Database \<Rightarrow> bool" where
  "stored_non_null d = list_all (\<lambda>r. id' r \<noteq> None \<and> content r \<noteq> None) (simple_data d)"

text \<open>
  The databases the service can be in: the one \<open>create_all\<close> leaves at the first start,
  and whatever a request to one of the three routes makes of a reachable one.
\<close>

inductive reachable :: "Database \<Rightarrow> bool" where
  startup: "reachable create_all"
| create: "reachable d \<Longrightarrow> reachable (snd (post_api_data item env d))"
| list: "reachable d \<Longrightarrow> reachable (snd (get_api_data skip limit tie d))"
| delete: "reachable d \<Longrightarrow> reachable (snd (delete_api_data item_id env d))"

text \<open>The row a successful create writes for a request body.\<close>

definition stored_row :: "DataItemCreate \<Rightarrow> Env \<Rightarrow> Database \<Rightarrow> SimpleData" where
  "stored_row item env d =
     \<lparr>id' = Some (simple_data_id_seq d + 1), content = Some (item_content item),
      created_at = Some (now env)\<rparr>"

text \<open>
  \<open>older_than t d\<close>: the clock reading \<open>t\<close> is later than the timestamp of every stored
  row, as it is when the store's clock has moved forward since the last insert.
\<close>

definition older_than :: "timestamp \<Rightarrow> Database \<Rightarrow> bool" where
  "older_than t d = list_all (\<lambda>r. created_at r < Some t) (simple_data d)"

section \<open>The routes, path by path\<close>

lemma find_append_fresh:
  "\<forall>r\<in>set rows. \<not> P r \<Longrightarrow> P x \<Longrightarrow> find P (rows @ [x]) = Some x"
  by (induction rows) auto

lemma those_map_Some: "those (map Some xs) = Some xs"
  by (induction xs) auto

lemma those_eq_Some: "those xs = Some ys \<Longrightarrow> xs = map Some ys"
  by (induction xs arbitrary: ys) (auto split: option.splits)

lemma map_Some_eq: "map Some xs = map Some ys \<Longrightarrow> xs = ys"
  by (simp add: inj_map_eq_map)

lemma same_key_same_row:
  assumes "distinct (map id' rows)" and "x \<in> set rows" and "y \<in> set rows" and "id' x = id' y"
  shows "x = y"
  using assms by (meson distinct_map inj_onD)

lemma close_SessionLocal: "close (SessionLocal d) = d"
  by (simp add: close_def SessionLocal_def)

subsection \<open>Well-formed databases\<close>

lemma well_formed_fresh:
  "well_formed d \<Longrightarrow> r \<in> set (simple_data d) \<Longrightarrow> id' r \<noteq> Some (simple_data_id_seq d + 1)"
  by (auto simp: well_formed_def list_all_iff split: option.splits)

lemma well_formed_create_all: "well_formed create_all"
  by (simp add: well_formed_def create_all_def)

lemma well_formed_filter:
  assumes "well_formed d"
  shows "well_formed (d\<lparr>simple_data := filter P (simple_data d)\<rparr>)"
  using assms by (auto simp: well_formed_def list_all_iff distinct_map_filter split: option.splits)

lemma well_formed_seq:
  assumes "well_formed d" and "simple_data_id_seq d \<le> s"
  shows "well_formed (d\<lparr>simple_data_id_seq := s\<rparr>)"
  using assms by (auto simp: well_formed_def list_all_iff split: option.splits)

lemma well_formed_non_null: "well_formed d \<Longrightarrow> stored_non_null d"
  by (auto simp: well_formed_def stored_non_null_def list_all_iff split: option.splits)

subsection \<open>Create\<close>

lemma create_committed:
  assumes "commit_fault env = None"
    and "\<forall>r\<in>set (simple_data d). id' r \<noteq> Some (simple_data_id_seq d + 1)"
  shows "create_data_entry item env (SessionLocal d) =
     (Return (stored_row item env d),
      SessionLocal (d\<lparr>simple_data := simple_data d @ [stored_row item env d],
                    simple_data_id_seq := simple_data_id_seq d + 1\<rparr>), [])"
  using assms
  by (simp add: create_data_entry_def commit_def add_def insert_row_def refresh_def
      stored_row_def find_append_fresh Let_def SessionLocal_def)

lemma create_refused_before:
  assumes "commit_fault env = Some (Before_flush e)"
  shows "create_data_entry item env (SessionLocal d) =
     (HTTPException 500 detail_save_failed, SessionLocal d, [log_save_error e])"
  using assms
  by (simp add: create_data_entry_def commit_def add_def insert_row_def rollback_def
      Let_def SessionLocal_def)

lemma create_refused_after:
  assumes "commit_fault env = Some (After_flush e)"
  shows "create_data_entry item env (SessionLocal d) =
     (HTTPException 500 detail_save_failed,
      SessionLocal (d\<lparr>simple_data_id_seq := simple_data_id_seq d + 1\<rparr>), [log_save_error e])"
  using assms
  by (simp add: create_data_entry_def commit_def add_def insert_row_def rollback_def
      Let_def SessionLocal_def)

lemma post_committed:
  assumes "commit_fault env = None" and "well_formed d"
  shows "post_api_data item env d =
     (OK \<lparr>data_id = simple_data_id_seq d + 1, data_content = item_content item,
          data_created_at = now env\<rparr>,
      d\<lparr>simple_data := simple_data d @ [stored_row item env d],
        simple_data_id_seq := simple_data_id_seq d + 1\<rparr>)"
proof -
  have "\<forall>r\<in>set (simple_data d). id' r \<noteq> Some (simple_data_id_seq d + 1)"
    using assms(2) by (simp add: well_formed_fresh)
  then show ?thesis
    using assms(1)
    by (simp add: post_api_data_def create_committed respond_def validate_DataItem_def
        stored_row_def close_SessionLocal)
qed

lemma post_refused_before:
  assumes "commit_fault env = Some (Before_flush e)"
  shows "post_api_data item env d = (Error 500 detail_save_failed, d)"
  using assms
  by (simp add: post_api_data_def create_refused_before respond_def close_SessionLocal)

lemma post_refused_after:
  assumes "commit_fault env = Some (After_flush e)"
  shows "post_api_data item env d =
     (Error 500 detail_save_failed, d\<lparr>simple_data_id_seq := simple_data_id_seq d + 1\<rparr>)"
  using assms
  by (simp add: post_api_data_def create_refused_after respond_def close_SessionLocal)

lemma post_database:
  assumes "commit_fault env = None"
  shows "snd (post_api_data item env d) =
     d\<lparr>simple_data := simple_data d @ [stored_row item env d],
       simple_data_id_seq := simple_data_id_seq d + 1\<rparr>"
  using assms
  by (simp add: post_api_data_def create_data_entry_def commit_def add_def insert_row_def
      rollback_def close_def stored_row_def SessionLocal_def Let_def
      split: sum.splits prod.splits)

lemma post_response:
  assumes "commit_fault env = None" and "well_formed d"
  shows "post_api_data item env d =
     (OK \<lparr>data_id = simple_data_id_seq d + 1, data_content = item_content item,
          data_created_at = now env\<rparr>, snd (post_api_data item env d))"
  using post_committed [OF assms] by simp

lemma post_refused_rows:
  assumes "commit_fault env = Some f"
  shows "simple_data (snd (post_api_data item env d)) = simple_data d"
  using assms by (cases f) (simp_all add: post_refused_before post_refused_after)

lemma well_formed_post:
  assumes "well_formed d"
  shows "well_formed (snd (post_api_data item env d))"
proof (cases "commit_fault env")
  case None
  have "Some (simple_data_id_seq d + 1) \<notin> id' ` set (simple_data d)"
    using assms well_formed_fresh by force
  then show ?thesis
    using assms None
    by (auto simp: post_committed well_formed_def stored_row_def list_all_iff
        split: option.splits)
next
  case (Some f)
  then show ?thesis
    using assms
    by (cases f) (simp_all add: post_refused_before post_refused_after well_formed_seq)
qed

lemma stored_non_null_post:
  assumes "stored_non_null d"
  shows "stored_non_null (snd (post_api_data item env d))"
proof (cases "commit_fault env")
  case None
  then show ?thesis
    using assms by (simp add: post_database stored_non_null_def stored_row_def)
next
  case (Some f)
  then show ?thesis
    using assms by (simp add: stored_non_null_def post_refused_rows)
qed

lemma validate_stored_row:
  "validate_DataItem (stored_row item env d) =
     Some \<lparr>data_id = simple_data_id_seq d + 1, data_content = item_content item,
           data_created_at = now env\<rparr>"
  by (simp add: validate_DataItem_def stored_row_def)

subsection \<open>Delete\<close>

lemma delete_absent:
  assumes "Some item_id \<notin> id' ` set (simple_data d)"
  shows "delete_api_data item_id env d = (Error 404 detail_not_found, d)"
proof -
  have "find (\<lambda>r. id' r = Some item_id) (simple_data d) = None"
    using assms by (auto simp: find_None_iff image_iff)
  then show ?thesis
    by (simp add: delete_api_data_def delete_data_entry_def query_first_by_id_def
        respond_def close_def SessionLocal_def)
qed

lemma query_first_present:
  assumes "Some item_id \<in> id' ` set (simple_data d)"
  shows "\<exists>e. query_first_by_id item_id (SessionLocal d) = Some e \<and> id' e = Some item_id"
proof (cases "find (\<lambda>r. id' r = Some item_id) (simple_data d)")
  case None
  then show ?thesis using assms by (auto simp: find_None_iff)
next
  case (Some e)
  then show ?thesis
    by (auto simp: query_first_by_id_def SessionLocal_def find_Some_iff)
qed

lemma delete_handler_refused:
  assumes "Some item_id \<in> id' ` set (simple_data d)" and "commit_fault env = Some f"
  shows "delete_data_entry item_id env (SessionLocal d) =
     (HTTPException 500 detail_delete_failed, SessionLocal d,
      [log_delete_error (fault_exception f)])"
proof -
  obtain r where "query_first_by_id item_id (SessionLocal d) = Some r"
    using query_first_present [OF assms(1)] by blast
  then show ?thesis
    using assms(2)
    by (cases f)
      (simp_all add: delete_data_entry_def commit_def delete_def delete_row_def rollback_def
        SessionLocal_def Let_def)
qed

lemma delete_committed:
  assumes "Some item_id \<in> id' ` set (simple_data d)" and "commit_fault env = None"
  shows "delete_api_data item_id env d =
     (OK [(''message'', message_deleted item_id)],
      d\<lparr>simple_data := filter (\<lambda>r. id' r \<noteq> Some item_id) (simple_data d)\<rparr>)"
proof -
  obtain e where "query_first_by_id item_id (SessionLocal d) = Some e" "id' e = Some item_id"
    using query_first_present [OF assms(1)] by blast
  then show ?thesis
    using assms(2)
    by (simp add: delete_api_data_def delete_data_entry_def commit_def delete_def
        delete_row_def respond_def close_def SessionLocal_def Let_def)
qed

lemma delete_refused:
  assumes "Some item_id \<in> id' ` set (simple_data d)" and "commit_fault env = Some f"
  shows "delete_api_data item_id env d = (Error 500 detail_delete_failed, d)"
  using delete_handler_refused [OF assms]
  by (simp add: delete_api_data_def respond_def close_SessionLocal)

lemma delete_database:
  "snd (delete_api_data item_id env d) = d \<or>
   snd (delete_api_data item_id env d) =
     d\<lparr>simple_data := filter (\<lambda>r. id' r \<noteq> Some item_id) (simple_data d)\<rparr>"
proof (cases "Some item_id \<in> id' ` set (simple_data d)")
  case False
  then show ?thesis by (simp add: delete_absent)
next
  case True
  then show ?thesis
    by (cases "commit_fault env") (simp_all add: delete_committed delete_refused)
qed

lemma well_formed_delete:
  assumes "well_formed d"
  shows "well_formed (snd (delete_api_data item_id env d))"
  using assms delete_database [of item_id env d] well_formed_filter [OF assms]
  by auto

lemma stored_non_null_delete:
  assumes "stored_non_null d"
  shows "stored_non_null (snd (delete_api_data item_id env d))"
  using assms delete_database [of item_id env d]
  by (auto simp: stored_non_null_def list_all_iff)

subsection \<open>Numerals\<close>

lemma decimal_snoc: "decimal (s @ [c]) = 10 * decimal s + (of_char c - 48)"
  by (simp add: decimal_def)

lemma decimal_digits: "decimal (digits n) = n"
proof (induction n rule: digits.induct)
  case (1 n)
  show ?case
  proof (cases "n < 10")
    case True
    then show ?thesis
      by (subst digits.simps) (simp add: decimal_def)
  next
    case False
    have "n mod 10 < 10" by simp
    then have "of_char (char_of (48 + n mod 10) :: char) - 48 = n mod 10"
      by simp
    with False 1 show ?thesis
      by (subst digits.simps) (simp add: decimal_snoc)
  qed
qed

lemma digits_not_minus: "digits n \<noteq> [] \<and> hd (digits n) \<noteq> CHR ''-''"
proof (induction n rule: digits.induct)
  case (1 n)
  show ?case
  proof (cases "n < 10")
    case True
    have "char_of (48 + n) \<noteq> CHR ''-''"
    proof
      assume "char_of (48 + n) = CHR ''-''"
      then have "of_char (char_of (48 + n) :: char) = (of_char CHR ''-'' :: nat)"
        by simp
      with True show False by simp
    qed
    with True show ?thesis
      by (subst (1 2) digits.simps) simp
  next
    case False
    with 1 show ?thesis
      by (subst (1 2) digits.simps) simp
  qed
qed

lemma int_of_str_str_int: "int_of_str (str_int i) = i"
proof (cases "i < 0")
  case True
  then show ?thesis
    by (simp add: int_of_str_def str_int_def decimal_digits)
next
  case False
  obtain c cs where "digits (nat i) = c # cs" "c \<noteq> CHR ''-''"
    using digits_not_minus [of "nat i"] by (cases "digits (nat i)") auto
  then have "int_of_str (digits (nat i)) = int (decimal (digits (nat i)))"
    by (simp add: int_of_str_def)
  with False show ?thesis
    by (simp add: str_int_def decimal_digits)
qed

subsection \<open>Listing\<close>

lemma validate_DataItem_Some:
  "validate_DataItem e = Some x \<longleftrightarrow>
     id' e = Some (data_id x) \<and> content e = Some (data_content x) \<and>
     created_at e = Some (data_created_at x)"
  by (cases x) (auto simp: validate_DataItem_def split: option.splits)

lemma validate_well_formed:
  assumes "well_formed d" and "set es \<subseteq> set (simple_data d)"
  shows "\<exists>items. map validate_DataItem es = map Some items"
  using assms(2)
proof (induction es)
  case Nil
  then show ?case by simp
next
  case (Cons e es)
  then obtain items where items: "map validate_DataItem es = map Some items" by auto
  from Cons.prems have "e \<in> set (simple_data d)" by simp
  with assms(1) have "id' e \<noteq> None" "content e \<noteq> None" "created_at e \<noteq> None"
    by (auto simp: well_formed_def list_all_iff split: option.splits)
  then obtain i c t where "id' e = Some i" "content e = Some c" "created_at e = Some t"
    by auto
  then have "validate_DataItem e = Some \<lparr>data_id = i, data_content = c, data_created_at = t\<rparr>"
    by (simp add: validate_DataItem_def)
  with items have "map validate_DataItem (e # es) =
      map Some (\<lparr>data_id = i, data_content = c, data_created_at = t\<rparr> # items)"
    by simp
  then show ?case by blast
qed

lemma validated_nth:
  assumes "map validate_DataItem es = map Some items" and "i < length items"
  shows "i < length es \<and> validate_DataItem (es ! i) = Some (items ! i)"
proof -
  have len: "length es = length items"
    using assms(1) by (rule map_eq_imp_length_eq)
  with assms(2) have "map validate_DataItem es ! i = map Some items ! i"
    using assms(1) by simp
  with assms(2) len show ?thesis by simp
qed

lemma get_database: "snd (get_api_data skip limit tie d) = d"
  by (simp add: get_api_data_def read_data_entries_def close_def SessionLocal_def
      split: sum.splits prod.splits)

lemma get_defaults:
  "get_api_data None limit tie d = get_api_data (Some 0) limit tie d"
  "get_api_data skip None tie d = get_api_data skip (Some 100) tie d"
  by (simp_all add: get_api_data_def)

lemma get_page:
  assumes "0 \<le> skip" and "skip < 2 ^ 63" and "0 \<le> limit" and "limit < 2 ^ 63"
    and "map validate_DataItem
           (take (nat limit) (drop (nat skip) (order_by_created_at_desc tie (simple_data d))))
         = map Some items"
  shows "get_api_data (Some skip) (Some limit) tie d = (OK items, d)"
  using assms
  by (simp add: get_api_data_def read_data_entries_def query_page_def bigint_def respond_def
      validate_DataItems_def those_map_Some close_def SessionLocal_def)

lemma get_rejected:
  assumes "skip < 0 \<or> limit < 0 \<or> 2 ^ 63 \<le> skip \<or> 2 ^ 63 \<le> limit"
  shows "get_api_data (Some skip) (Some limit) tie d = (internal_server_error, d)"
  using assms
  by (auto simp: get_api_data_def read_data_entries_def query_page_def bigint_def respond_def
      close_def SessionLocal_def)

lemma sorted_order_by:
  "sorted (map (\<lambda>r. desc (created_at r)) (order_by_created_at_desc tie rows))"
  by (simp add: order_by_created_at_desc_def sorted_sort_key)

lemma set_order_by: "set (order_by_created_at_desc tie rows) = set rows"
  by (simp add: order_by_created_at_desc_def)

lemma length_order_by: "length (order_by_created_at_desc tie rows) = length rows"
  by (simp add: order_by_created_at_desc_def)

lemma distinct_order_by: "distinct (order_by_created_at_desc tie rows) = distinct rows"
  by (simp add: order_by_created_at_desc_def)

lemma sorted_page:
  "sorted (map (\<lambda>r. desc (created_at r))
     (take n (drop m (order_by_created_at_desc tie rows))))"
  using sorted_order_by [of tie rows]
  by (simp add: take_map [symmetric] drop_map [symmetric] sorted_wrt_take sorted_wrt_drop)

lemma items_newest_first:
  assumes "map validate_DataItem es = map Some items"
    and "sorted (map (\<lambda>r. desc (created_at r)) es)"
  shows "sorted_wrt (\<lambda>a b. data_created_at b \<le> data_created_at a) items"
  using assms
proof (induction es arbitrary: items)
  case Nil
  then show ?case by simp
next
  case (Cons e es)
  then obtain x xs where items: "items = x # xs" "validate_DataItem e = Some x"
      "map validate_DataItem es = map Some xs"
    by (cases items) auto
  have tail: "sorted_wrt (\<lambda>a b. data_created_at b \<le> data_created_at a) xs"
    using Cons.IH [OF items(3)] Cons.prems(2) by simp
  have "data_created_at y \<le> data_created_at x" if "y \<in> set xs" for y
  proof -
    from that have "Some y \<in> set (map validate_DataItem es)"
      using items(3) by simp
    then obtain r where r: "r \<in> set es" "validate_DataItem r = Some y" by auto
    with Cons.prems(2) have "desc (created_at e) \<le> desc (created_at r)" by simp
    with r(2) items(2) show ?thesis
      by (simp add: validate_DataItem_Some desc_def)
  qed
  with tail items(1) show ?case by simp
qed

lemma get_OK_page:
  assumes "get_api_data skip limit tie d = (OK items, d')"
  shows "validate_DataItems
           (take (nat (case limit of None \<Rightarrow> 100 | Some v \<Rightarrow> v))
             (drop (nat (case skip of None \<Rightarrow> 0 | Some v \<Rightarrow> v))
               (order_by_created_at_desc tie (simple_data d)))) = Some items"
  using assms
  by (auto simp: get_api_data_def read_data_entries_def query_page_def respond_def
      internal_server_error_def SessionLocal_def
      split: if_splits option.splits)

lemma get_items_stored:
  assumes "get_api_data skip limit tie d = (OK items, d')" and "x \<in> set items"
  shows "\<exists>r\<in>set (simple_data d). validate_DataItem r = Some x"
proof -
  define es where "es = take (nat (case limit of None \<Rightarrow> 100 | Some v \<Rightarrow> v))
             (drop (nat (case skip of None \<Rightarrow> 0 | Some v \<Rightarrow> v))
               (order_by_created_at_desc tie (simple_data d)))"
  have sub: "set es \<subseteq> set (simple_data d)"
    unfolding es_def
    by (metis set_take_subset set_drop_subset set_order_by subset_trans)
  have "validate_DataItems es = Some items"
    unfolding es_def using assms(1) by (rule get_OK_page)
  then have "map validate_DataItem es = map Some items"
    by (simp add: validate_DataItems_def those_eq_Some)
  with assms(2) have "Some x \<in> set (map validate_DataItem es)" by simp
  then show ?thesis using sub by auto
qed

lemma list_page:
  assumes "well_formed d" and "0 \<le> skip" and "skip < 2 ^ 63" and "0 \<le> limit" and "limit < 2 ^ 63"
  shows "\<exists>items. get_api_data (Some skip) (Some limit) tie d = (OK items, d) \<and>
           map validate_DataItem
             (take (nat limit) (drop (nat skip) (order_by_created_at_desc tie (simple_data d))))
           = map Some items"
proof -
  let ?es = "take (nat limit) (drop (nat skip) (order_by_created_at_desc tie (simple_data d)))"
  have "set ?es \<subseteq> set (simple_data d)"
    by (metis set_take_subset set_drop_subset set_order_by subset_trans)
  then obtain items where items: "map validate_DataItem ?es = map Some items"
    using validate_well_formed [OF assms(1)] by blast
  then have "get_api_data (Some skip) (Some limit) tie d = (OK items, d)"
    using assms(2-5) by (simp add: get_page)
  with items show ?thesis by blast
qed

lemma list_whole:
  assumes "well_formed d"
  shows "\<exists>all. map validate_DataItem (order_by_created_at_desc tie (simple_data d)) = map Some all"
  using validate_well_formed [OF assms, of "order_by_created_at_desc tie (simple_data d)"]
  by (simp add: set_order_by)

subsection \<open>The newest rows\<close>

lemma newest_is_first:
  assumes "sorted (map f L)" and "x \<in> set L" and "\<forall>y\<in>set L. y \<noteq> x \<longrightarrow> f x < f y"
  shows "\<exists>rest. L = x # rest"
proof (cases L)
  case Nil
  with assms(2) show ?thesis by simp
next
  case (Cons z rest)
  have "z = x"
  proof (rule ccontr)
    assume "z \<noteq> x"
    with assms(2) Cons have "x \<in> set rest" by simp
    with assms(1) Cons have "f z \<le> f x" by simp
    moreover have "f x < f z" using assms(3) Cons \<open>z \<noteq> x\<close> by simp
    ultimately show False by simp
  qed
  with Cons show ?thesis by simp
qed

lemma older_than_rows:
  assumes "well_formed d" and "older_than t d"
  shows "\<forall>r\<in>set (simple_data d). created_at r \<noteq> None \<and> created_at r < Some t"
  using assms by (auto simp: well_formed_def older_than_def list_all_iff)

lemma older_than_mono: "older_than t d \<Longrightarrow> t \<le> t' \<Longrightarrow> older_than t' d"
  by (auto simp: older_than_def list_all_iff intro: less_le_trans)

lemma older_than_post:
  assumes "older_than t d" and "now env < t" and "commit_fault env = None"
  shows "older_than t (snd (post_api_data item env d))"
  using assms by (simp add: post_database older_than_def stored_row_def)

lemma older_desc:
  assumes "created_at r \<noteq> None" and "created_at r < Some t"
  shows "desc (Some t) < desc (created_at r)"
  using assms by (cases "created_at r") (simp_all add: desc_def)

lemma reachable_well_formed: "reachable d \<Longrightarrow> well_formed d"
  by (induction rule: reachable.induct)
    (simp_all add: well_formed_create_all well_formed_post well_formed_delete get_database)

lemma two_newest_first:
  assumes "sorted (map f L)" and "distinct L" and "x \<in> set L" and "y \<in> set L"
    and "f x < f y" and "\<forall>z\<in>set L. z \<noteq> x \<and> z \<noteq> y \<longrightarrow> f y < f z"
  shows "\<exists>rest. L = x # y # rest"
proof -
  have "\<forall>z\<in>set L. z \<noteq> x \<longrightarrow> f x < f z"
    using assms(5,6) by (metis less_trans)
  then obtain tail where L: "L = x # tail"
    using newest_is_first [OF assms(1,3)] by blast
  have "y \<noteq> x" using assms(5) by auto
  with assms(4) L have y: "y \<in> set tail" by simp
  have "sorted (map f tail)" using assms(1) L by simp
  moreover have "\<forall>z\<in>set tail. z \<noteq> y \<longrightarrow> f y < f z"
    using assms(2,6) L by auto
  ultimately obtain rest where "tail = y # rest"
    using newest_is_first [OF _ y] by blast
  with L show ?thesis by simp
qed

lemma distinct_validated:
  assumes "distinct (map id' es)" and "map validate_DataItem es = map Some items"
  shows "distinct items"
proof -
  have "inj_on validate_DataItem (set es)"
  proof (rule inj_onI)
    fix r1 r2
    assume in_es: "r1 \<in> set es" "r2 \<in> set es" and eq: "validate_DataItem r1 = validate_DataItem r2"
    from in_es(1) have "validate_DataItem r1 \<in> set (map Some items)"
      using assms(2) by (metis image_eqI set_map)
    then obtain x where x: "validate_DataItem r1 = Some x" by auto
    with eq have "validate_DataItem r2 = Some x" by simp
    with x have "id' r1 = id' r2"
      by (simp add: validate_DataItem_Some)
    with assms(1) in_es show "r1 = r2"
      by (rule same_key_same_row)
  qed
  moreover have "distinct es"
    using assms(1) by (rule distinct_map [THEN iffD1, THEN conjunct1])
  ultimately have "distinct (map validate_DataItem es)"
    by (simp add: distinct_map)
  then have "distinct (map Some items)"
    using assms(2) by simp
  then show ?thesis
    by (simp add: distinct_map)
qed

lemma distinct_ids_order_by:
  assumes "distinct (map id' rows)"
  shows "distinct (map id' (order_by_created_at_desc tie rows))"
  using assms by (simp add: distinct_map distinct_order_by set_order_by)

lemma newest_two_listed:
  assumes "well_formed d" and "x \<in> set (simple_data d)" and "y \<in> set (simple_data d)"
    and "created_at x = Some tx" and "created_at y = Some ty" and "ty < tx"
    and "\<forall>z\<in>set (simple_data d). z \<noteq> x \<and> z \<noteq> y \<longrightarrow> created_at z < Some ty"
  shows "\<exists>rest. order_by_created_at_desc tie (simple_data d) = x # y # rest"
proof -
  let ?f = "\<lambda>r. desc (created_at r)"
  let ?L = "order_by_created_at_desc tie (simple_data d)"
  have "distinct (simple_data d)"
    using assms(1) by (simp add: well_formed_def distinct_map)
  then have dist: "distinct ?L"
    by (simp add: distinct_order_by)
  have non_null: "\<forall>z\<in>set (simple_data d). created_at z \<noteq> None"
    using assms(1) by (simp add: well_formed_def list_all_iff)
  have xy: "?f x < ?f y"
    using assms(4-6) by (simp add: desc_def)
  have "\<forall>z\<in>set ?L. z \<noteq> x \<and> z \<noteq> y \<longrightarrow> ?f y < ?f z"
    using assms(5,7) non_null by (auto simp: set_order_by older_desc)
  then show ?thesis
    using two_newest_first [OF sorted_order_by dist, of x y] assms(2,3) xy
    by (simp add: set_order_by)
qed

lemma post_rows:
  assumes "commit_fault env = None"
  shows "simple_data (snd (post_api_data item env d)) = simple_data d @ [stored_row item env d]"
    and "simple_data_id_seq (snd (post_api_data item env d)) = simple_data_id_seq d + 1"
  using assms by (simp_all add: post_database)

lemma stored_row_fresh:
  assumes "well_formed d" and "r \<in> set (simple_data d)"
  shows "r \<noteq> stored_row item env d"
  using well_formed_fresh [OF assms] by (auto simp: stored_row_def)

text \<open>
  Two rows with the same timestamp: which of them a page holds depends on the order the
  store picks for that query.
\<close>

lemma tied_rows_either_order:
  "get_api_data (Some 1) (Some 1) (\<lambda>r. 0)
     \<lparr>simple_data = [\<lparr>id' = Some 1, content = Some ''a'', created_at = Some 5\<rparr>,
                     \<lparr>id' = Some 2, content = Some ''b'', created_at = Some 5\<rparr>],
      simple_data_id_seq = 2\<rparr> =
     (OK [\<lparr>data_id = 2, data_content = ''b'', data_created_at = 5\<rparr>],
      \<lparr>simple_data = [\<lparr>id' = Some 1, content = Some ''a'', created_at = Some 5\<rparr>,
                      \<lparr>id' = Some 2, content = Some ''b'', created_at = Some 5\<rparr>],
       simple_data_id_seq = 2\<rparr>)"
  "get_api_data (Some 1) (Some 1) (\<lambda>r. if id' r = Some 2 then 0 else 1)
     \<lparr>simple_data = [\<lparr>id' = Some 1, content = Some ''a'', created_at = Some 5\<rparr>,
                     \<lparr>id' = Some 2, content = Some ''b'', created_at = Some 5\<rparr>],
      simple_data_id_seq = 2\<rparr> =
     (OK [\<lparr>data_id = 1, data_content = ''a'', data_created_at = 5\<rparr>],
      \<lparr>simple_data = [\<lparr>id' = Some 1, content = Some ''a'', created_at = Some 5\<rparr>,
                      \<lparr>id' = Some 2, content = Some ''b'', created_at = Some 5\<rparr>],
       simple_data_id_seq = 2\<rparr>)"
  by (simp_all add: get_api_data_def read_data_entries_def query_page_def bigint_def respond_def
      order_by_created_at_desc_def desc_def validate_DataItems_def validate_DataItem_def
      close_def SessionLocal_def)

section \<open>The claims\<close>

text \<open>
  Claim C1. A create request with body \<open>{content: s}\<close> whose commit the store accepts is
  answered 200 with the full record: its content is \<open>s\<close>, its id is the next value of
  the sequence and its \<open>created_at\<close> is the store's clock reading, and exactly that row
  has been appended to the table.
\<close>

theorem create_returns_stored_record:
  assumes "well_formed d" and "commit_fault env = None"
  shows "post_api_data (DataItemCreate s) env d =
     (OK \<lparr>data_id = simple_data_id_seq d + 1, data_content = s, data_created_at = now env\<rparr>,
      d\<lparr>simple_data := simple_data d @
           [\<lparr>id' = Some (simple_data_id_seq d + 1), content = Some s, created_at = Some (now env)\<rparr>],
        simple_data_id_seq := simple_data_id_seq d + 1\<rparr>)"
  using post_committed [OF assms(2) assms(1), of "DataItemCreate s"]
  by (simp add: stored_row_def)

theorem create_returns_stored_record_witness:
  "well_formed create_all \<and>
   commit_fault \<lparr>called_at = 990, now = 1000, commit_fault = None\<rparr> = None \<and>
   post_api_data (DataItemCreate ''hello'')
       \<lparr>called_at = 990, now = 1000, commit_fault = None\<rparr> create_all =
     (OK \<lparr>data_id = 1, data_content = ''hello'', data_created_at = 1000\<rparr>,
      \<lparr>simple_data = [\<lparr>id' = Some 1, content = Some ''hello'', created_at = Some 1000\<rparr>],
       simple_data_id_seq = 1\<rparr>)"
  using create_returns_stored_record
    [of create_all "\<lparr>called_at = 990, now = 1000, commit_fault = None\<rparr>" "''hello''"]
  by (simp add: well_formed_def create_all_def)

text \<open>
  Claim C2. On a well-formed database every listing whose \<open>skip\<close> and \<open>limit\<close> the store
  accepts (non-negative, within its 64-bit range) is answered 200 with stored records in
  descending order of \<open>created_at\<close>, whatever order the store picks among equal
  timestamps. And when A is created and then B, the store's clock reading later for B
  than for A, the default listing never shows A without B before it; if the rows stored
  before were all older than A, the listing starts with B, then A.
\<close>

theorem list_newest_first:
  assumes "well_formed d"
  shows "(0 \<le> skip \<and> skip < 2 ^ 63 \<and> 0 \<le> limit \<and> limit < 2 ^ 63 \<longrightarrow>
            (\<exists>items. get_api_data (Some skip) (Some limit) tie d = (OK items, d) \<and>
               sorted_wrt (\<lambda>a b. data_created_at b \<le> data_created_at a) items \<and>
               (\<forall>x\<in>set items. \<exists>r\<in>set (simple_data d). validate_DataItem r = Some x))) \<and>
         (commit_fault ea = None \<and> commit_fault eb = None \<and> now ea < now eb \<longrightarrow>
            (\<exists>a b d1 d2 items.
               post_api_data ia ea d = (OK a, d1) \<and>
               post_api_data ib eb d1 = (OK b, d2) \<and>
               get_api_data None None tie' d2 = (OK items, d2) \<and>
               (a \<in> set items \<longrightarrow>
                  (\<exists>i j. i < j \<and> j < length items \<and> items ! i = b \<and> items ! j = a)) \<and>
               (older_than (now ea) d \<longrightarrow> (\<exists>rest. items = b # a # rest))))"
proof -
  have page: "\<exists>items. get_api_data (Some skip) (Some limit) tie d = (OK items, d) \<and>
               sorted_wrt (\<lambda>a b. data_created_at b \<le> data_created_at a) items \<and>
               (\<forall>x\<in>set items. \<exists>r\<in>set (simple_data d). validate_DataItem r = Some x)"
    if args: "0 \<le> skip" "skip < 2 ^ 63" "0 \<le> limit" "limit < 2 ^ 63"
  proof -
    let ?es = "take (nat limit) (drop (nat skip) (order_by_created_at_desc tie (simple_data d)))"
    obtain items where items: "get_api_data (Some skip) (Some limit) tie d = (OK items, d)"
      "map validate_DataItem ?es = map Some items"
      using list_page [OF assms args] by blast
    have srt: "sorted_wrt (\<lambda>a b. data_created_at b \<le> data_created_at a) items"
      using items_newest_first [OF items(2) sorted_page] .
    have "\<forall>x\<in>set items. \<exists>r\<in>set (simple_data d). validate_DataItem r = Some x"
      using get_items_stored [OF items(1)] by blast
    with items(1) srt show ?thesis by blast
  qed
  have two: "\<exists>a b d1 d2 items.
               post_api_data ia ea d = (OK a, d1) \<and>
               post_api_data ib eb d1 = (OK b, d2) \<and>
               get_api_data None None tie' d2 = (OK items, d2) \<and>
               (a \<in> set items \<longrightarrow>
                  (\<exists>i j. i < j \<and> j < length items \<and> items ! i = b \<and> items ! j = a)) \<and>
               (older_than (now ea) d \<longrightarrow> (\<exists>rest. items = b # a # rest))"
    if ok: "commit_fault ea = None" "commit_fault eb = None" and clock: "now ea < now eb"
  proof -
    define d1 where "d1 = snd (post_api_data ia ea d)"
    define d2 where "d2 = snd (post_api_data ib eb d1)"
    define ra where "ra = stored_row ia ea d"
    define rb where "rb = stored_row ib eb d1"
    define a where "a = \<lparr>data_id = simple_data_id_seq d + 1, data_content = item_content ia,
          data_created_at = now ea\<rparr>"
    define b where "b = \<lparr>data_id = simple_data_id_seq d1 + 1, data_content = item_content ib,
          data_created_at = now eb\<rparr>"
    define L where "L = order_by_created_at_desc tie' (simple_data d2)"
    have wf1: "well_formed d1"
      unfolding d1_def using assms by (rule well_formed_post)
    have wf2: "well_formed d2"
      unfolding d2_def using wf1 by (rule well_formed_post)
    have pa: "post_api_data ia ea d = (OK a, d1)"
      unfolding d1_def a_def using post_response [OF ok(1) assms, of ia] .
    have pb: "post_api_data ib eb d1 = (OK b, d2)"
      unfolding d2_def b_def using post_response [OF ok(2) wf1, of ib] .
    have rows1: "simple_data d1 = simple_data d @ [ra]"
      and seq1: "simple_data_id_seq d1 = simple_data_id_seq d + 1"
      unfolding d1_def ra_def using ok(1) by (simp_all add: post_database)
    have rows2: "simple_data d2 = simple_data d @ [ra, rb]"
      unfolding d2_def rb_def using ok(2) rows1 by (simp add: post_database)
    have va: "validate_DataItem ra = Some a" and vb: "validate_DataItem rb = Some b"
      unfolding ra_def rb_def a_def b_def by (simp_all add: validate_stored_row)
    have ids: "id' ra \<noteq> id' rb"
      unfolding ra_def rb_def by (simp add: stored_row_def seq1)
    obtain items where items: "get_api_data None None tie' d2 = (OK items, d2)"
      "map validate_DataItem (take 100 L) = map Some items"
      using list_page [OF wf2, of 0 100 tie'] unfolding L_def by (auto simp: get_defaults)
    have before: "\<exists>i j. i < j \<and> j < length items \<and> items ! i = b \<and> items ! j = a"
      if listed: "a \<in> set items"
    proof -
      from listed obtain j where j: "j < length items" "items ! j = a"
        by (auto simp: in_set_conv_nth)
      from validated_nth [OF items(2) j(1)]
      have e1: "j < length (take 100 L)"
        and e2: "validate_DataItem (take 100 L ! j) = Some (items ! j)"
        by blast+
      from e1 have jL: "j < length L" "j < 100" by simp_all
      from e2 jL j(2) have vj: "validate_DataItem (L ! j) = Some a" by simp
      from jL have "L ! j \<in> set (simple_data d2)"
        unfolding L_def by (metis nth_mem set_order_by)
      moreover have "ra \<in> set (simple_data d2)"
        by (simp add: rows2)
      moreover have "id' (L ! j) = id' ra"
        using vj va by (simp add: validate_DataItem_Some)
      moreover have "distinct (map id' (simple_data d2))"
        using wf2 by (simp add: well_formed_def)
      ultimately have Lj: "L ! j = ra"
        by (meson same_key_same_row)
      have "rb \<in> set L"
        unfolding L_def by (simp add: set_order_by rows2)
      then obtain k where k: "k < length L" "L ! k = rb"
        by (auto simp: in_set_conv_nth)
      have srt: "sorted (map (\<lambda>r. desc (created_at r)) L)"
        unfolding L_def by (rule sorted_order_by)
      have "k < j"
      proof (rule ccontr)
        assume "\<not> k < j"
        moreover have "k \<noteq> j" using Lj k(2) ids by auto
        ultimately have "j < k" by simp
        then have "desc (created_at (L ! j)) \<le> desc (created_at (L ! k))"
          using sorted_nth_mono [OF srt, of j k] k(1) by simp
        then have "desc (created_at ra) \<le> desc (created_at rb)"
          using Lj k(2) by simp
        then show False
          using clock by (simp add: ra_def rb_def stored_row_def desc_def)
      qed
      then have "take 100 L ! k = rb"
        using k(2) jL(2) by simp
      moreover have "k < length items"
        using \<open>k < j\<close> j(1) by simp
      ultimately have "items ! k = b"
        using validated_nth [OF items(2), of k] vb by simp
      with \<open>k < j\<close> j show ?thesis by blast
    qed
    have front: "\<exists>rest. items = b # a # rest" if old: "older_than (now ea) d"
    proof -
      have others: "\<forall>z\<in>set (simple_data d2). z \<noteq> rb \<and> z \<noteq> ra \<longrightarrow> created_at z < Some (now ea)"
        using older_than_rows [OF assms old] by (auto simp: rows2)
      obtain rest where "L = rb # ra # rest"
        unfolding L_def
        using newest_two_listed [OF wf2, of rb ra "now eb" "now ea" tie'] others clock
        by (auto simp: rows2 ra_def rb_def stored_row_def)
      then have "map validate_DataItem (take 100 L) =
          Some b # Some a # map validate_DataItem (take 98 rest)"
        using va vb by (simp add: take_Cons')
      with items(2) show ?thesis
        by (cases items; cases "tl items") auto
    qed
    from pa pb items(1) before front show ?thesis by blast
  qed
  from page two show ?thesis by blast
qed

theorem list_newest_first_witness:
  "well_formed create_all \<and> older_than 10 create_all \<and>
   post_api_data (DataItemCreate ''A'') \<lparr>called_at = 9, now = 10, commit_fault = None\<rparr>
      create_all =
     (OK \<lparr>data_id = 1, data_content = ''A'', data_created_at = 10\<rparr>,
      \<lparr>simple_data = [\<lparr>id' = Some 1, content = Some ''A'', created_at = Some 10\<rparr>],
       simple_data_id_seq = 1\<rparr>) \<and>
   post_api_data (DataItemCreate ''B'') \<lparr>called_at = 19, now = 20, commit_fault = None\<rparr>
      \<lparr>simple_data = [\<lparr>id' = Some 1, content = Some ''A'', created_at = Some 10\<rparr>],
       simple_data_id_seq = 1\<rparr> =
     (OK \<lparr>data_id = 2, data_content = ''B'', data_created_at = 20\<rparr>,
      \<lparr>simple_data = [\<lparr>id' = Some 1, content = Some ''A'', created_at = Some 10\<rparr>,
                      \<lparr>id' = Some 2, content = Some ''B'', created_at = Some 20\<rparr>],
       simple_data_id_seq = 2\<rparr>) \<and>
   (\<exists>rest. get_api_data None None (\<lambda>r. 0)
      \<lparr>simple_data = [\<lparr>id' = Some 1, content = Some ''A'', created_at = Some 10\<rparr>,
                      \<lparr>id' = Some 2, content = Some ''B'', created_at = Some 20\<rparr>],
       simple_data_id_seq = 2\<rparr> =
     (OK (\<lparr>data_id = 2, data_content = ''B'', data_created_at = 20\<rparr> #
          \<lparr>data_id = 1, data_content = ''A'', data_created_at = 10\<rparr> # rest),
      \<lparr>simple_data = [\<lparr>id' = Some 1, content = Some ''A'', created_at = Some 10\<rparr>,
                      \<lparr>id' = Some 2, content = Some ''B'', created_at = Some 20\<rparr>],
       simple_data_id_seq = 2\<rparr>)) \<and>
   well_formed
     \<lparr>simple_data = [\<lparr>id' = Some 1, content = Some ''A'', created_at = Some 10\<rparr>,
                     \<lparr>id' = Some 2, content = Some ''B'', created_at = Some 20\<rparr>],
      simple_data_id_seq = 2\<rparr> \<and>
   (\<exists>items. get_api_data (Some 0) (Some 100) (\<lambda>r. 0)
      \<lparr>simple_data = [\<lparr>id' = Some 1, content = Some ''A'', created_at = Some 10\<rparr>,
                      \<lparr>id' = Some 2, content = Some ''B'', created_at = Some 20\<rparr>],
       simple_data_id_seq = 2\<rparr> =
     (OK items,
      \<lparr>simple_data = [\<lparr>id' = Some 1, content = Some ''A'', created_at = Some 10\<rparr>,
                      \<lparr>id' = Some 2, content = Some ''B'', created_at = Some 20\<rparr>],
       simple_data_id_seq = 2\<rparr>) \<and>
     sorted_wrt (\<lambda>a b. data_created_at b \<le> data_created_at a) items)"
proof -
  let ?ea = "\<lparr>called_at = 9, now = 10, commit_fault = None\<rparr>"
  let ?eb = "\<lparr>called_at = 19, now = 20, commit_fault = None\<rparr>"
  let ?a = "\<lparr>data_id = 1, data_content = ''A'', data_created_at = 10\<rparr>"
  let ?b = "\<lparr>data_id = 2, data_content = ''B'', data_created_at = 20\<rparr>"
  let ?d1 = "\<lparr>simple_data = [\<lparr>id' = Some 1, content = Some ''A'', created_at = Some 10\<rparr>],
       simple_data_id_seq = 1\<rparr>"
  let ?d2 = "\<lparr>simple_data = [\<lparr>id' = Some 1, content = Some ''A'', created_at = Some 10\<rparr>,
                      \<lparr>id' = Some 2, content = Some ''B'', created_at = Some 20\<rparr>],
       simple_data_id_seq = 2\<rparr>"
  have wf0: "well_formed create_all"
    by (rule well_formed_create_all)
  have old: "older_than 10 create_all"
    by (simp add: older_than_def create_all_def)
  have wf1: "well_formed ?d1" and wf2: "well_formed ?d2"
    by (simp_all add: well_formed_def)
  have pa: "post_api_data (DataItemCreate ''A'') ?ea create_all = (OK ?a, ?d1)"
    using post_committed [OF _ wf0, of ?ea "DataItemCreate ''A''"]
    by (simp add: stored_row_def create_all_def)
  have pb: "post_api_data (DataItemCreate ''B'') ?eb ?d1 = (OK ?b, ?d2)"
    using post_committed [OF _ wf1, of ?eb "DataItemCreate ''B''"]
    by (simp add: stored_row_def)
  have "\<exists>a b d1 d2 items.
      post_api_data (DataItemCreate ''A'') ?ea create_all = (OK a, d1) \<and>
      post_api_data (DataItemCreate ''B'') ?eb d1 = (OK b, d2) \<and>
      get_api_data None None (\<lambda>r. 0) d2 = (OK items, d2) \<and>
      (\<exists>rest. items = b # a # rest)"
    using list_newest_first [where ea = ?ea and eb = ?eb
        and ia = "DataItemCreate ''A''" and ib = "DataItemCreate ''B''" and tie' = "\<lambda>r. 0",
        OF wf0, THEN conjunct2] old
    by auto
  then have order: "\<exists>rest. get_api_data None None (\<lambda>r. 0) ?d2 = (OK (?b # ?a # rest), ?d2)"
    using pa pb by auto
  have page: "\<exists>items. get_api_data (Some 0) (Some 100) (\<lambda>r. 0) ?d2 = (OK items, ?d2) \<and>
      sorted_wrt (\<lambda>a b. data_created_at b \<le> data_created_at a) items"
    using list_newest_first [OF wf2, THEN conjunct1, of 0 100 "\<lambda>r. 0"] by auto
  from wf0 old pa pb order wf2 page show ?thesis
    by simp
qed

text \<open>
  Claim C3, as amended. On a well-formed database, for a \<open>skip\<close> that is non-negative and
  a \<open>limit\<close> that is positive, both within the store's 64-bit range, the listing is a
  descending sequence of all the stored records (each once, newest first, records of
  equal \<open>created_at\<close> in the order the store picks for this query) without its first
  \<open>skip\<close> records and cut to at most \<open>limit\<close>. A missing \<open>skip\<close> is 0 and a missing \<open>limit\<close>
  is 100. And three records created one after the other, the second newer than
  everything stored before it and the third newer still, then listed with
  \<open>skip = 1, limit = 1\<close>, give exactly the second, whatever the store's tie order.
\<close>

theorem list_skip_limit:
  assumes "well_formed d"
  shows "(0 \<le> skip \<and> skip < 2 ^ 63 \<and> 0 < limit \<and> limit < 2 ^ 63 \<longrightarrow>
            (\<exists>all items.
               length all = length (simple_data d) \<and>
               (\<forall>x. x \<in> set all \<longleftrightarrow> (\<exists>r\<in>set (simple_data d). validate_DataItem r = Some x)) \<and>
               distinct all \<and>
               sorted_wrt (\<lambda>a b. data_created_at b \<le> data_created_at a) all \<and>
               get_api_data (Some skip) (Some limit) tie d = (OK items, d) \<and>
               items = take (nat limit) (drop (nat skip) all) \<and>
               int (length items) \<le> limit)) \<and>
         get_api_data None limit' tie d = get_api_data (Some 0) limit' tie d \<and>
         get_api_data skip' None tie d = get_api_data skip' (Some 100) tie d \<and>
         (commit_fault ea = None \<and> commit_fault eb = None \<and> commit_fault ec = None \<and>
          older_than (now eb) d \<and> now ea < now eb \<and> now eb < now ec \<longrightarrow>
            (\<exists>r1 r2 r3 d1 d2 d3.
               post_api_data ia ea d = (OK r1, d1) \<and>
               post_api_data ib eb d1 = (OK r2, d2) \<and>
               post_api_data ic ec d2 = (OK r3, d3) \<and>
               (\<forall>tie'. get_api_data (Some 1) (Some 1) tie' d3 = (OK [r2], d3))))"
proof -
  have page: "\<exists>all items.
               length all = length (simple_data d) \<and>
               (\<forall>x. x \<in> set all \<longleftrightarrow> (\<exists>r\<in>set (simple_data d). validate_DataItem r = Some x)) \<and>
               distinct all \<and>
               sorted_wrt (\<lambda>a b. data_created_at b \<le> data_created_at a) all \<and>
               get_api_data (Some skip) (Some limit) tie d = (OK items, d) \<and>
               items = take (nat limit) (drop (nat skip) all) \<and>
               int (length items) \<le> limit"
    if args: "0 \<le> skip" "skip < 2 ^ 63" "0 < limit" "limit < 2 ^ 63"
  proof -
    let ?L = "order_by_created_at_desc tie (simple_data d)"
    obtain all where all: "map validate_DataItem ?L = map Some all"
      using list_whole [OF assms] by blast
    have len: "length all = length (simple_data d)"
      using all by (metis length_map length_order_by)
    have mem: "x \<in> set all \<longleftrightarrow> (\<exists>r\<in>set (simple_data d). validate_DataItem r = Some x)" for x
    proof -
      have "x \<in> set all \<longleftrightarrow> Some x \<in> set (map Some all)" by auto
      also have "\<dots> \<longleftrightarrow> Some x \<in> set (map validate_DataItem ?L)"
        by (simp only: all)
      also have "\<dots> \<longleftrightarrow> (\<exists>r\<in>set (simple_data d). validate_DataItem r = Some x)"
        by (force simp: set_order_by)
      finally show ?thesis .
    qed
    have "distinct (map id' ?L)"
      using assms by (simp add: well_formed_def distinct_ids_order_by)
    then have dist: "distinct all"
      using all by (rule distinct_validated)
    have srt: "sorted_wrt (\<lambda>a b. data_created_at b \<le> data_created_at a) all"
      using items_newest_first [OF all sorted_order_by] .
    obtain items where items: "get_api_data (Some skip) (Some limit) tie d = (OK items, d)"
      "map validate_DataItem (take (nat limit) (drop (nat skip) ?L)) = map Some items"
      using list_page [OF assms, of skip limit tie] args by auto
    have "map Some items = take (nat limit) (drop (nat skip) (map validate_DataItem ?L))"
      using items(2) by (simp only: take_map drop_map)
    also have "\<dots> = take (nat limit) (drop (nat skip) (map Some all))"
      by (simp only: all)
    also have "\<dots> = map Some (take (nat limit) (drop (nat skip) all))"
      by (simp only: take_map drop_map)
    finally have slice: "items = take (nat limit) (drop (nat skip) all)"
      by (rule map_Some_eq)
    then have "int (length items) \<le> limit"
      using args(3) by simp
    with len mem dist srt items(1) slice show ?thesis by blast
  qed
  have three: "\<exists>r1 r2 r3 d1 d2 d3.
               post_api_data ia ea d = (OK r1, d1) \<and>
               post_api_data ib eb d1 = (OK r2, d2) \<and>
               post_api_data ic ec d2 = (OK r3, d3) \<and>
               (\<forall>tie'. get_api_data (Some 1) (Some 1) tie' d3 = (OK [r2], d3))"
    if ok: "commit_fault ea = None" "commit_fault eb = None" "commit_fault ec = None"
      and old: "older_than (now eb) d" and clock: "now ea < now eb" "now eb < now ec"
  proof -
    define d1 where "d1 = snd (post_api_data ia ea d)"
    define d2 where "d2 = snd (post_api_data ib eb d1)"
    define d3 where "d3 = snd (post_api_data ic ec d2)"
    define row1 where "row1 = stored_row ia ea d"
    define row2 where "row2 = stored_row ib eb d1"
    define row3 where "row3 = stored_row ic ec d2"
    define r2 where "r2 = \<lparr>data_id = simple_data_id_seq d1 + 1, data_content = item_content ib,
          data_created_at = now eb\<rparr>"
    have wf1: "well_formed d1"
      unfolding d1_def using assms by (rule well_formed_post)
    have wf2: "well_formed d2"
      unfolding d2_def using wf1 by (rule well_formed_post)
    have wf3: "well_formed d3"
      unfolding d3_def using wf2 by (rule well_formed_post)
    have p1: "\<exists>r1. post_api_data ia ea d = (OK r1, d1)"
      unfolding d1_def using post_response [OF ok(1) assms, of ia] by metis
    have p2: "post_api_data ib eb d1 = (OK r2, d2)"
      unfolding d2_def r2_def using post_response [OF ok(2) wf1, of ib] .
    have p3: "\<exists>r3. post_api_data ic ec d2 = (OK r3, d3)"
      unfolding d3_def using post_response [OF ok(3) wf2, of ic] by metis
    have rows1: "simple_data d1 = simple_data d @ [row1]"
      unfolding d1_def row1_def using ok(1) by (rule post_rows)
    have rows2: "simple_data d2 = simple_data d @ [row1, row2]"
      unfolding d2_def row2_def using post_rows(1) [OF ok(2), of ib d1] rows1 by simp
    have rows3: "simple_data d3 = simple_data d @ [row1, row2, row3]"
      unfolding d3_def row3_def using post_rows(1) [OF ok(3), of ic d2] rows2 by simp
    have v2: "validate_DataItem row2 = Some r2"
      unfolding row2_def r2_def by (rule validate_stored_row)
    have others: "\<forall>z\<in>set (simple_data d3). z \<noteq> row3 \<and> z \<noteq> row2 \<longrightarrow> created_at z < Some (now eb)"
      using older_than_rows [OF assms old] clock(1)
      by (auto simp: rows3 row1_def stored_row_def)
    have listed: "get_api_data (Some 1) (Some 1) tie' d3 = (OK [r2], d3)" for tie'
    proof -
      obtain rest where L: "order_by_created_at_desc tie' (simple_data d3) = row3 # row2 # rest"
        using newest_two_listed [OF wf3, of row3 row2 "now ec" "now eb" tie'] others clock(2)
        by (auto simp: rows3 row3_def row2_def stored_row_def)
      obtain items where items: "get_api_data (Some 1) (Some 1) tie' d3 = (OK items, d3)"
        "map validate_DataItem
           (take (nat 1) (drop (nat 1) (order_by_created_at_desc tie' (simple_data d3))))
         = map Some items"
        using list_page [OF wf3, of 1 1 tie'] by auto
      from items(2) have "items = [r2]"
        unfolding L using v2 by auto
      with items(1) show ?thesis by simp
    qed
    with p1 p2 p3 show ?thesis by blast
  qed
  from page three show ?thesis
    by (simp add: get_defaults)
qed


theorem list_skip_limit_witness:
  "well_formed create_all \<and> older_than 20 create_all \<and>
   well_formed
     \<lparr>simple_data = [\<lparr>id' = Some 1, content = Some ''a'', created_at = Some 10\<rparr>,
                     \<lparr>id' = Some 2, content = Some ''b'', created_at = Some 20\<rparr>,
                     \<lparr>id' = Some 3, content = Some ''c'', created_at = Some 30\<rparr>],
      simple_data_id_seq = 3\<rparr> \<and>
   post_api_data (DataItemCreate ''a'') \<lparr>called_at = 9, now = 10, commit_fault = None\<rparr>
      create_all =
     (OK \<lparr>data_id = 1, data_content = ''a'', data_created_at = 10\<rparr>,
      \<lparr>simple_data = [\<lparr>id' = Some 1, content = Some ''a'', created_at = Some 10\<rparr>],
       simple_data_id_seq = 1\<rparr>) \<and>
   post_api_data (DataItemCreate ''b'') \<lparr>called_at = 19, now = 20, commit_fault = None\<rparr>
      \<lparr>simple_data = [\<lparr>id' = Some 1, content = Some ''a'', created_at = Some 10\<rparr>],
       simple_data_id_seq = 1\<rparr> =
     (OK \<lparr>data_id = 2, data_content = ''b'', data_created_at = 20\<rparr>,
      \<lparr>simple_data = [\<lparr>id' = Some 1, content = Some ''a'', created_at = Some 10\<rparr>,
                      \<lparr>id' = Some 2, content = Some ''b'', created_at = Some 20\<rparr>],
       simple_data_id_seq = 2\<rparr>) \<and>
   post_api_data (DataItemCreate ''c'') \<lparr>called_at = 29, now = 30, commit_fault = None\<rparr>
      \<lparr>simple_data = [\<lparr>id' = Some 1, content = Some ''a'', created_at = Some 10\<rparr>,
                      \<lparr>id' = Some 2, content = Some ''b'', created_at = Some 20\<rparr>],
       simple_data_id_seq = 2\<rparr> =
     (OK \<lparr>data_id = 3, data_content = ''c'', data_created_at = 30\<rparr>,
      \<lparr>simple_data = [\<lparr>id' = Some 1, content = Some ''a'', created_at = Some 10\<rparr>,
                      \<lparr>id' = Some 2, content = Some ''b'', created_at = Some 20\<rparr>,
                      \<lparr>id' = Some 3, content = Some ''c'', created_at = Some 30\<rparr>],
       simple_data_id_seq = 3\<rparr>) \<and>
   get_api_data (Some 1) (Some 1) (\<lambda>r. 0)
      \<lparr>simple_data = [\<lparr>id' = Some 1, content = Some ''a'', created_at = Some 10\<rparr>,
                      \<lparr>id' = Some 2, content = Some ''b'', created_at = Some 20\<rparr>,
                      \<lparr>id' = Some 3, content = Some ''c'', created_at = Some 30\<rparr>],
       simple_data_id_seq = 3\<rparr> =
     (OK [\<lparr>data_id = 2, data_content = ''b'', data_created_at = 20\<rparr>],
      \<lparr>simple_data = [\<lparr>id' = Some 1, content = Some ''a'', created_at = Some 10\<rparr>,
                      \<lparr>id' = Some 2, content = Some ''b'', created_at = Some 20\<rparr>,
                      \<lparr>id' = Some 3, content = Some ''c'', created_at = Some 30\<rparr>],
       simple_data_id_seq = 3\<rparr>) \<and>
   (\<exists>all. length all = 3 \<and> distinct all \<and>
      sorted_wrt (\<lambda>a b. data_created_at b \<le> data_created_at a) all \<and>
      [\<lparr>data_id = 2, data_content = ''b'', data_created_at = 20\<rparr>] = take 1 (drop 1 all))"
proof -
  let ?e1 = "\<lparr>called_at = 9, now = 10, commit_fault = None\<rparr>"
  let ?e2 = "\<lparr>called_at = 19, now = 20, commit_fault = None\<rparr>"
  let ?e3 = "\<lparr>called_at = 29, now = 30, commit_fault = None\<rparr>"
  let ?d1 = "\<lparr>simple_data = [\<lparr>id' = Some 1, content = Some ''a'', created_at = Some 10\<rparr>],
       simple_data_id_seq = 1\<rparr>"
  let ?d2 = "\<lparr>simple_data = [\<lparr>id' = Some 1, content = Some ''a'', created_at = Some 10\<rparr>,
                      \<lparr>id' = Some 2, content = Some ''b'', created_at = Some 20\<rparr>],
       simple_data_id_seq = 2\<rparr>"
  let ?d3 = "\<lparr>simple_data = [\<lparr>id' = Some 1, content = Some ''a'', created_at = Some 10\<rparr>,
                      \<lparr>id' = Some 2, content = Some ''b'', created_at = Some 20\<rparr>,
                      \<lparr>id' = Some 3, content = Some ''c'', created_at = Some 30\<rparr>],
       simple_data_id_seq = 3\<rparr>"
  let ?b = "\<lparr>data_id = 2, data_content = ''b'', data_created_at = 20\<rparr>"
  have wf0: "well_formed create_all"
    by (rule well_formed_create_all)
  have old: "older_than 20 create_all"
    by (simp add: older_than_def create_all_def)
  have wf1: "well_formed ?d1" and wf2: "well_formed ?d2" and wf3: "well_formed ?d3"
    by (simp_all add: well_formed_def)
  have p1: "post_api_data (DataItemCreate ''a'') ?e1 create_all =
      (OK \<lparr>data_id = 1, data_content = ''a'', data_created_at = 10\<rparr>, ?d1)"
    using post_committed [OF _ wf0, of ?e1 "DataItemCreate ''a''"]
    by (simp add: stored_row_def create_all_def)
  have p2: "post_api_data (DataItemCreate ''b'') ?e2 ?d1 = (OK ?b, ?d2)"
    using post_committed [OF _ wf1, of ?e2 "DataItemCreate ''b''"]
    by (simp add: stored_row_def)
  have p3: "post_api_data (DataItemCreate ''c'') ?e3 ?d2 =
      (OK \<lparr>data_id = 3, data_content = ''c'', data_created_at = 30\<rparr>, ?d3)"
    using post_committed [OF _ wf2, of ?e3 "DataItemCreate ''c''"]
    by (simp add: stored_row_def)
  have "\<exists>r1 r2 r3 d1 d2 d3.
      post_api_data (DataItemCreate ''a'') ?e1 create_all = (OK r1, d1) \<and>
      post_api_data (DataItemCreate ''b'') ?e2 d1 = (OK r2, d2) \<and>
      post_api_data (DataItemCreate ''c'') ?e3 d2 = (OK r3, d3) \<and>
      (\<forall>tie'. get_api_data (Some 1) (Some 1) tie' d3 = (OK [r2], d3))"
    using list_skip_limit [OF wf0, where ea = ?e1 and eb = ?e2 and ec = ?e3
        and ia = "DataItemCreate ''a''" and ib = "DataItemCreate ''b''"
        and ic = "DataItemCreate ''c''"] old
    by simp
  then have "\<forall>tie'. get_api_data (Some 1) (Some 1) tie' ?d3 = (OK [?b], ?d3)"
    using p1 p2 p3 by auto
  then have second: "get_api_data (Some 1) (Some 1) (\<lambda>r. 0) ?d3 = (OK [?b], ?d3)"
    by blast
  have range: "(0::int) \<le> 1 \<and> (1::int) < 2 ^ 63 \<and> (0::int) < 1 \<and> (1::int) < 2 ^ 63"
    by simp
  from list_skip_limit [OF wf3, THEN conjunct1, of 1 1 "\<lambda>r. 0", THEN mp, OF range]
  obtain all items where len: "length all = length (simple_data ?d3)"
    and dist: "distinct all"
    and srt: "sorted_wrt (\<lambda>a b. data_created_at b \<le> data_created_at a) all"
    and got: "get_api_data (Some 1) (Some 1) (\<lambda>r. 0) ?d3 = (OK items, ?d3)"
    and cut: "items = take (nat 1) (drop (nat 1) all)"
    by blast
  from got second have "items = [?b]" by simp
  with cut have "[?b] = take 1 (drop 1 all)" by simp
  moreover from len have "length all = 3" by simp
  ultimately have slice: "\<exists>all. length all = 3 \<and> distinct all \<and>
      sorted_wrt (\<lambda>a b. data_created_at b \<le> data_created_at a) all \<and>
      [?b] = take 1 (drop 1 all)"
    using dist srt by blast
  from wf0 old wf3 p1 p2 p3 second slice show ?thesis
    by simp
qed

text \<open>
  Claim C3 as stated fails: it covers every non-negative \<open>skip\<close>, but \<open>skip = 2^63\<close> with
  \<open>limit = 1\<close> is refused by the store and answered 500 instead of a page.
\<close>

theorem list_skip_beyond_range_counterexample:
  "get_api_data (Some 9223372036854775808) (Some 1) (\<lambda>r. 0) create_all =
     (Error 500 ''Internal Server Error'', create_all) \<and>
   status_code (fst (get_api_data (Some 9223372036854775808) (Some 1) (\<lambda>r. 0) create_all)) = 500"
  by (simp add: get_api_data_def read_data_entries_def query_page_def bigint_def respond_def
      internal_server_error_def close_def SessionLocal_def)

text \<open>
  Claim C4. Deleting an id that a stored record has, with the commit accepted, is
  answered 200 with a confirmation message that contains the decimal numeral of the id,
  the numeral that reads back as that very id. Every row with that id is gone from the
  table and the other rows stay, so no later listing, whatever its parameters, returns a
  record with that id.
\<close>

theorem delete_present_removes:
  assumes "Some item_id \<in> id' ` set (simple_data d)" and "commit_fault env = None"
  shows "delete_api_data item_id env d =
           (OK [(''message'', message_deleted item_id)],
            d\<lparr>simple_data := filter (\<lambda>r. id' r \<noteq> Some item_id) (simple_data d)\<rparr>) \<and>
         sublist (str_int item_id) (message_deleted item_id) \<and>
         int_of_str (str_int item_id) = item_id \<and>
         Some item_id \<notin> id' ` set (simple_data (snd (delete_api_data item_id env d))) \<and>
         (\<forall>skip limit tie items d'.
            get_api_data skip limit tie (snd (delete_api_data item_id env d)) = (OK items, d')
            \<longrightarrow> item_id \<notin> data_id ` set items)"
proof -
  let ?d' = "d\<lparr>simple_data := filter (\<lambda>r. id' r \<noteq> Some item_id) (simple_data d)\<rparr>"
  have run: "delete_api_data item_id env d = (OK [(''message'', message_deleted item_id)], ?d')"
    using assms by (rule delete_committed)
  have msg: "sublist (str_int item_id) (message_deleted item_id)"
    unfolding message_deleted_def sublist_def by blast
  have num: "int_of_str (str_int item_id) = item_id"
    by (rule int_of_str_str_int)
  have gone: "Some item_id \<notin> id' ` set (simple_data ?d')"
    by auto
  have "item_id \<notin> data_id ` set items"
    if listed: "get_api_data skip limit tie ?d' = (OK items, d')" for skip limit tie items d'
  proof
    assume "item_id \<in> data_id ` set items"
    then obtain x where x: "x \<in> set items" "data_id x = item_id" by auto
    then obtain r where "r \<in> set (simple_data ?d')" "validate_DataItem r = Some x"
      using get_items_stored [OF listed] by blast
    then show False
      using x(2) by (auto simp: validate_DataItem_Some)
  qed
  with run msg num gone show ?thesis by simp
qed

theorem delete_present_removes_witness:
  "Some 12 \<in> id' ` set (simple_data
       \<lparr>simple_data = [\<lparr>id' = Some 12, content = Some ''a'', created_at = Some 5\<rparr>,
                       \<lparr>id' = Some 13, content = Some ''b'', created_at = Some 6\<rparr>],
        simple_data_id_seq = 13\<rparr>) \<and>
   commit_fault \<lparr>called_at = 8, now = 9, commit_fault = None\<rparr> = None \<and>
   delete_api_data 12 \<lparr>called_at = 8, now = 9, commit_fault = None\<rparr>
       \<lparr>simple_data = [\<lparr>id' = Some 12, content = Some ''a'', created_at = Some 5\<rparr>,
                       \<lparr>id' = Some 13, content = Some ''b'', created_at = Some 6\<rparr>],
        simple_data_id_seq = 13\<rparr> =
     (OK [(''message'', message_deleted 12)],
      \<lparr>simple_data = [\<lparr>id' = Some 13, content = Some ''b'', created_at = Some 6\<rparr>],
       simple_data_id_seq = 13\<rparr>) \<and>
   str_int 12 = ''12'' \<and>
   sublist ''12'' (message_deleted 12) \<and>
   int_of_str ''12'' = 12 \<and>
   get_api_data None None (\<lambda>r. 0)
      \<lparr>simple_data = [\<lparr>id' = Some 13, content = Some ''b'', created_at = Some 6\<rparr>],
       simple_data_id_seq = 13\<rparr> =
     (OK [\<lparr>data_id = 13, data_content = ''b'', data_created_at = 6\<rparr>],
      \<lparr>simple_data = [\<lparr>id' = Some 13, content = Some ''b'', created_at = Some 6\<rparr>],
       simple_data_id_seq = 13\<rparr>)"
proof -
  have str: "str_int 12 = ''12''"
    by code_simp
  have list: "get_api_data None None (\<lambda>r. 0)
      \<lparr>simple_data = [\<lparr>id' = Some 13, content = Some ''b'', created_at = Some 6\<rparr>],
       simple_data_id_seq = 13\<rparr> =
     (OK [\<lparr>data_id = 13, data_content = ''b'', data_created_at = 6\<rparr>],
      \<lparr>simple_data = [\<lparr>id' = Some 13, content = Some ''b'', created_at = Some 6\<rparr>],
       simple_data_id_seq = 13\<rparr>)"
    by (simp add: get_api_data_def read_data_entries_def query_page_def bigint_def respond_def
        order_by_created_at_desc_def validate_DataItems_def validate_DataItem_def
        close_def SessionLocal_def)
  show ?thesis
    using delete_present_removes [of 12
       "\<lparr>simple_data = [\<lparr>id' = Some 12, content = Some ''a'', created_at = Some 5\<rparr>,
                       \<lparr>id' = Some 13, content = Some ''b'', created_at = Some 6\<rparr>],
        simple_data_id_seq = 13\<rparr>" "\<lparr>called_at = 8, now = 9, commit_fault = None\<rparr>"] str list
    by simp
qed

text \<open>
  Claim C5. Deleting an id that no stored record has is answered 404 with the fixed
  "not found" detail, whatever the environment; the database is the same afterwards, and
  the handler leaves the session as it found it, with nothing pending and nothing printed.
\<close>

theorem delete_absent_is_404:
  assumes "Some item_id \<notin> id' ` set (simple_data d)"
  shows "delete_api_data item_id env d = (Error 404 detail_not_found, d) \<and>
         delete_data_entry item_id env (SessionLocal d) =
           (HTTPException 404 detail_not_found, SessionLocal d, [])"
proof -
  have "find (\<lambda>r. id' r = Some item_id) (simple_data d) = None"
    using assms by (auto simp: find_None_iff image_iff)
  then have "delete_data_entry item_id env (SessionLocal d) =
           (HTTPException 404 detail_not_found, SessionLocal d, [])"
    by (simp add: delete_data_entry_def query_first_by_id_def SessionLocal_def)
  then show ?thesis
    using delete_absent [OF assms] by simp
qed

theorem delete_absent_is_404_witness:
  "Some 7 \<notin> id' ` set (simple_data
       \<lparr>simple_data = [\<lparr>id' = Some 1, content = Some ''a'', created_at = Some 5\<rparr>],
        simple_data_id_seq = 1\<rparr>) \<and>
   delete_api_data 7 \<lparr>called_at = 8, now = 9, commit_fault = None\<rparr>
       \<lparr>simple_data = [\<lparr>id' = Some 1, content = Some ''a'', created_at = Some 5\<rparr>],
        simple_data_id_seq = 1\<rparr> =
     (Error 404 detail_not_found,
       \<lparr>simple_data = [\<lparr>id' = Some 1, content = Some ''a'', created_at = Some 5\<rparr>],
        simple_data_id_seq = 1\<rparr>)"
  using delete_absent_is_404 [of 7
       "\<lparr>simple_data = [\<lparr>id' = Some 1, content = Some ''a'', created_at = Some 5\<rparr>],
        simple_data_id_seq = 1\<rparr>" "\<lparr>called_at = 8, now = 9, commit_fault = None\<rparr>"]
  by simp

text \<open>
  Claim C6. When the store refuses the commit, create and delete (of an id that is
  stored) roll back and answer 500 with a fixed detail. The stored records are the same
  afterwards and the session has nothing pending. The response is the same whatever the
  exception was: its text goes to the printed line only. A refused delete leaves the
  whole database as it was; a refused create leaves the rows and, when its INSERT had
  already run, has used up one value of the sequence.
\<close>

theorem commit_failure_is_500:
  assumes "commit_fault env = Some f"
  shows "fst (post_api_data item env d) = Error 500 detail_save_failed \<and>
         simple_data (snd (post_api_data item env d)) = simple_data d \<and>
         simple_data_id_seq (snd (post_api_data item env d)) =
           (case f of Before_flush _ \<Rightarrow> simple_data_id_seq d
                    | After_flush _ \<Rightarrow> simple_data_id_seq d + 1) \<and>
         (\<exists>db. create_data_entry item env (SessionLocal d) =
                 (HTTPException 500 detail_save_failed, db, [log_save_error (fault_exception f)]) \<and>
               simple_data (bind db) = simple_data d \<and> new db = [] \<and> deleted db = []) \<and>
         (Some item_id \<in> id' ` set (simple_data d) \<longrightarrow>
            delete_api_data item_id env d = (Error 500 detail_delete_failed, d) \<and>
            delete_data_entry item_id env (SessionLocal d) =
              (HTTPException 500 detail_delete_failed, SessionLocal d,
               [log_delete_error (fault_exception f)]))"
proof -
  have create: "fst (post_api_data item env d) = Error 500 detail_save_failed \<and>
         simple_data (snd (post_api_data item env d)) = simple_data d \<and>
         simple_data_id_seq (snd (post_api_data item env d)) =
           (case f of Before_flush _ \<Rightarrow> simple_data_id_seq d
                    | After_flush _ \<Rightarrow> simple_data_id_seq d + 1)"
  proof (cases f)
    case (Before_flush e)
    with assms have "commit_fault env = Some (Before_flush e)" by simp
    then show ?thesis by (simp add: Before_flush post_refused_before)
  next
    case (After_flush e)
    with assms have "commit_fault env = Some (After_flush e)" by simp
    then show ?thesis by (simp add: After_flush post_refused_after)
  qed
  have handler: "\<exists>db. create_data_entry item env (SessionLocal d) =
                 (HTTPException 500 detail_save_failed, db, [log_save_error (fault_exception f)]) \<and>
               simple_data (bind db) = simple_data d \<and> new db = [] \<and> deleted db = []"
  proof (cases f)
    case (Before_flush e)
    with assms have "commit_fault env = Some (Before_flush e)" by simp
    from create_refused_before [OF this, of item d] show ?thesis
      by (simp add: Before_flush SessionLocal_def)
  next
    case (After_flush e)
    with assms have "commit_fault env = Some (After_flush e)" by simp
    from create_refused_after [OF this, of item d] show ?thesis
      by (simp add: After_flush SessionLocal_def)
  qed
  have delete: "delete_api_data item_id env d = (Error 500 detail_delete_failed, d) \<and>
            delete_data_entry item_id env (SessionLocal d) =
              (HTTPException 500 detail_delete_failed, SessionLocal d,
               [log_delete_error (fault_exception f)])"
    if present: "Some item_id \<in> id' ` set (simple_data d)"
    using delete_refused [OF present assms] delete_handler_refused [OF present assms]
    by simp
  from create handler delete show ?thesis by blast
qed

theorem commit_failure_is_500_witness:
  "commit_fault \<lparr>called_at = 8, now = 9,
       commit_fault = Some (After_flush (DBAPIError ''server closed the connection''))\<rparr>
     = Some (After_flush (DBAPIError ''server closed the connection'')) \<and>
   Some 1 \<in> id' ` set (simple_data
       \<lparr>simple_data = [\<lparr>id' = Some 1, content = Some ''a'', created_at = Some 5\<rparr>],
        simple_data_id_seq = 1\<rparr>) \<and>
   post_api_data (DataItemCreate ''b'')
       \<lparr>called_at = 8, now = 9,
        commit_fault = Some (After_flush (DBAPIError ''server closed the connection''))\<rparr>
       \<lparr>simple_data = [\<lparr>id' = Some 1, content = Some ''a'', created_at = Some 5\<rparr>],
        simple_data_id_seq = 1\<rparr> =
     (Error 500 detail_save_failed,
       \<lparr>simple_data = [\<lparr>id' = Some 1, content = Some ''a'', created_at = Some 5\<rparr>],
        simple_data_id_seq = 2\<rparr>) \<and>
   delete_api_data 1
       \<lparr>called_at = 8, now = 9,
        commit_fault = Some (After_flush (DBAPIError ''server closed the connection''))\<rparr>
       \<lparr>simple_data = [\<lparr>id' = Some 1, content = Some ''a'', created_at = Some 5\<rparr>],
        simple_data_id_seq = 1\<rparr> =
     (Error 500 detail_delete_failed,
       \<lparr>simple_data = [\<lparr>id' = Some 1, content = Some ''a'', created_at = Some 5\<rparr>],
        simple_data_id_seq = 1\<rparr>)"
proof -
  let ?env = "\<lparr>called_at = 8, now = 9,
        commit_fault = Some (After_flush (DBAPIError ''server closed the connection''))\<rparr>"
  let ?d = "\<lparr>simple_data = [\<lparr>id' = Some 1, content = Some ''a'', created_at = Some 5\<rparr>],
        simple_data_id_seq = 1\<rparr>"
  let ?p = "post_api_data (DataItemCreate ''b'') ?env ?d"
  have facts: "fst ?p = Error 500 detail_save_failed" "simple_data (snd ?p) = simple_data ?d"
      "simple_data_id_seq (snd ?p) = 2"
      "delete_api_data 1 ?env ?d = (Error 500 detail_delete_failed, ?d)"
    using commit_failure_is_500 [of ?env "After_flush (DBAPIError ''server closed the connection'')"
        "DataItemCreate ''b''" ?d 1]
    by simp_all
  have "snd ?p = \<lparr>simple_data = simple_data (snd ?p), simple_data_id_seq = simple_data_id_seq (snd ?p)\<rparr>"
    by simp
  with facts(2,3) have "snd ?p = \<lparr>simple_data = simple_data ?d, simple_data_id_seq = 2\<rparr>"
    by simp
  with facts(1) have "?p = (Error 500 detail_save_failed,
      \<lparr>simple_data = simple_data ?d, simple_data_id_seq = 2\<rparr>)"
    by (metis prod.collapse)
  with facts(4) show ?thesis by simp
qed

text \<open>
  Claim C7, as amended. The handler hands \<open>skip\<close> and \<open>limit\<close> to the store as they come.
  On a well-formed database, when both are non-negative and within the store's 64-bit
  range the answer is 200 with exactly the rows the two numbers select, no clamping and
  no cap: as many as \<open>limit\<close> and the rows left after \<open>skip\<close> allow, so none when the table
  is empty or \<open>skip\<close> is at least the number of rows. When either number is negative or
  beyond that range the store refuses the query; the handler catches nothing, so the
  answer is the plain 500, and the database is unchanged.
\<close>

theorem list_in_range_or_500:
  "(well_formed d \<and> 0 \<le> skip \<and> skip < 2 ^ 63 \<and> 0 \<le> limit \<and> limit < 2 ^ 63 \<longrightarrow>
      (\<exists>items. get_api_data (Some skip) (Some limit) tie d = (OK items, d) \<and>
         length items = min (nat limit) (length (simple_data d) - nat skip) \<and>
         (simple_data d = [] \<or> int (length (simple_data d)) \<le> skip \<longrightarrow> items = []))) \<and>
   (skip < 0 \<or> limit < 0 \<or> 2 ^ 63 \<le> skip \<or> 2 ^ 63 \<le> limit \<longrightarrow>
      get_api_data (Some skip) (Some limit) tie d = (Error 500 ''Internal Server Error'', d))"
proof -
  have ok: "\<exists>items. get_api_data (Some skip) (Some limit) tie d = (OK items, d) \<and>
         length items = min (nat limit) (length (simple_data d) - nat skip) \<and>
         (simple_data d = [] \<or> int (length (simple_data d)) \<le> skip \<longrightarrow> items = [])"
    if wf: "well_formed d" and range: "0 \<le> skip" "skip < 2 ^ 63" "0 \<le> limit" "limit < 2 ^ 63"
  proof -
    obtain items where items: "get_api_data (Some skip) (Some limit) tie d = (OK items, d)"
      "map validate_DataItem
         (take (nat limit) (drop (nat skip) (order_by_created_at_desc tie (simple_data d))))
       = map Some items"
      using list_page [OF wf range] by blast
    have "length items = length
        (take (nat limit) (drop (nat skip) (order_by_created_at_desc tie (simple_data d))))"
      using items(2) by (metis length_map)
    then have len: "length items = min (nat limit) (length (simple_data d) - nat skip)"
      by (simp add: length_order_by min.commute)
    have "items = []" if "simple_data d = [] \<or> int (length (simple_data d)) \<le> skip"
    proof -
      from that range(1) have "length (simple_data d) - nat skip = 0"
        by auto
      with len show ?thesis by simp
    qed
    with items(1) len show ?thesis by blast
  qed
  have bad: "get_api_data (Some skip) (Some limit) tie d = (Error 500 ''Internal Server Error'', d)"
    if "skip < 0 \<or> limit < 0 \<or> 2 ^ 63 \<le> skip \<or> 2 ^ 63 \<le> limit"
    using get_rejected [OF that] by (simp add: internal_server_error_def)
  from ok bad show ?thesis by blast
qed

theorem list_in_range_or_500_witness:
  "well_formed create_all \<and>
   get_api_data (Some 5) (Some 0) (\<lambda>r. 0) create_all = (OK [], create_all) \<and>
   get_api_data (Some 0) (Some (- 3)) (\<lambda>r. 0) create_all =
     (Error 500 ''Internal Server Error'', create_all) \<and>
   get_api_data (Some 0) (Some 9223372036854775808) (\<lambda>r. 0) create_all =
     (Error 500 ''Internal Server Error'', create_all)"
proof -
  have wf: "well_formed create_all"
    by (rule well_formed_create_all)
  have "\<exists>items. get_api_data (Some 5) (Some 0) (\<lambda>r. 0) create_all = (OK items, create_all) \<and>
      items = []"
    using list_in_range_or_500 [of create_all 5 0 "\<lambda>r. 0"] wf by (auto simp: create_all_def)
  moreover have "get_api_data (Some 0) (Some (- 3)) (\<lambda>r. 0) create_all =
     (Error 500 ''Internal Server Error'', create_all)"
    using list_in_range_or_500 [of create_all 0 "- 3" "\<lambda>r. 0"] by simp
  moreover have "get_api_data (Some 0) (Some 9223372036854775808) (\<lambda>r. 0) create_all =
     (Error 500 ''Internal Server Error'', create_all)"
    using list_in_range_or_500 [of create_all 0 9223372036854775808 "\<lambda>r. 0"] by simp
  ultimately show ?thesis using wf by auto
qed

text \<open>
  Claim C7 as stated fails: it promises 200 and no error for every integer, but
  \<open>skip = -1\<close> with the default limit, on the empty table, is answered 500.
\<close>

theorem list_negative_skip_counterexample:
  "get_api_data (Some (- 1)) (Some 100) (\<lambda>r. 0) create_all =
     (Error 500 ''Internal Server Error'', create_all) \<and>
   status_code (fst (get_api_data (Some (- 1)) (Some 100) (\<lambda>r. 0) create_all)) = 500"
  by (simp add: get_api_data_def read_data_entries_def query_page_def bigint_def respond_def
      internal_server_error_def close_def SessionLocal_def)

text \<open>
  Claim C8. Every record stored in a reachable database has its id and its content set,
  and each of the three routes keeps that so: create, list and delete take a database
  with no null id or content to another one, whether the commit is accepted or not.
\<close>

theorem stored_records_non_null:
  "(reachable d \<longrightarrow> (\<forall>r\<in>set (simple_data d). id' r \<noteq> None \<and> content r \<noteq> None)) \<and>
   (stored_non_null d \<longrightarrow>
      stored_non_null (snd (post_api_data item env d)) \<and>
      stored_non_null (snd (get_api_data skip limit tie d)) \<and>
      stored_non_null (snd (delete_api_data item_id env' d)))"
proof -
  have "\<forall>r\<in>set (simple_data d). id' r \<noteq> None \<and> content r \<noteq> None" if "reachable d"
    using well_formed_non_null [OF reachable_well_formed [OF that]]
    by (simp add: stored_non_null_def list_all_iff)
  then show ?thesis
    by (simp add: stored_non_null_post stored_non_null_delete get_database)
qed

theorem stored_records_non_null_witness:
  "reachable (snd (post_api_data (DataItemCreate ''a'')
      \<lparr>called_at = 4, now = 5, commit_fault = None\<rparr> create_all)) \<and>
   snd (post_api_data (DataItemCreate ''a'')
      \<lparr>called_at = 4, now = 5, commit_fault = None\<rparr> create_all) =
     \<lparr>simple_data = [\<lparr>id' = Some 1, content = Some ''a'', created_at = Some 5\<rparr>],
      simple_data_id_seq = 1\<rparr> \<and>
   stored_non_null
     \<lparr>simple_data = [\<lparr>id' = Some 1, content = Some ''a'', created_at = Some 5\<rparr>],
      simple_data_id_seq = 1\<rparr> \<and>
   stored_non_null (snd (post_api_data (DataItemCreate ''b'')
     \<lparr>called_at = 5, now = 6, commit_fault = None\<rparr>
     \<lparr>simple_data = [\<lparr>id' = Some 1, content = Some ''a'', created_at = Some 5\<rparr>],
      simple_data_id_seq = 1\<rparr>)) \<and>
   stored_non_null (snd (delete_api_data 1 \<lparr>called_at = 6, now = 7, commit_fault = None\<rparr>
     \<lparr>simple_data = [\<lparr>id' = Some 1, content = Some ''a'', created_at = Some 5\<rparr>],
      simple_data_id_seq = 1\<rparr>))"
proof -
  let ?d = "\<lparr>simple_data = [\<lparr>id' = Some 1, content = Some ''a'', created_at = Some 5\<rparr>],
      simple_data_id_seq = 1\<rparr>"
  have run: "snd (post_api_data (DataItemCreate ''a'')
      \<lparr>called_at = 4, now = 5, commit_fault = None\<rparr> create_all) = ?d"
    by (simp add: post_database stored_row_def create_all_def)
  have reach: "reachable ?d"
    using reachable.create [OF reachable.startup, of "DataItemCreate ''a''"
        "\<lparr>called_at = 4, now = 5, commit_fault = None\<rparr>"] run by simp
  have inv: "stored_non_null ?d"
    using stored_records_non_null [of ?d] reach by (simp add: stored_non_null_def)
  show ?thesis
    using stored_records_non_null [of ?d "DataItemCreate ''b''"
        "\<lparr>called_at = 5, now = 6, commit_fault = None\<rparr>"
        None None "\<lambda>r. 0" 1 "\<lparr>called_at = 6, now = 7, commit_fault = None\<rparr>"] reach inv run
    by simp
qed



text \<open>
  Claim C10. Listing never modifies the store: for every database and all parameters,
  given or defaulted, accepted by the store or not, and whatever order the store picks
  among equal timestamps, the database after the request is the database before it, and
  the handler hands its session back untouched.
\<close>

theorem list_leaves_store_unchanged:
  "snd (get_api_data skip limit tie d) = d \<and>
   snd (read_data_entries skip' limit' tie' db) = (db, [])"
  by (simp add: get_database read_data_entries_def split: sum.splits)

end
